theory Spec2Isabelle
  imports Complex_Main
begin

section \<open>The stack mixin (src/horizontal-stack-mixin.js)\<close>

text \<open>
  JavaScript numbers are modelled as reals: rounding of floating-point arithmetic is not
  modelled. \<open>null\<close> and \<open>undefined\<close> are modelled by \<open>None\<close> of an option type,
  a property that an object literal does not set by \<open>None\<close> as well.
\<close>

subsection \<open>Data\<close>

text \<open>
  A data point as \<open>prepareValues\<close> builds it (fields \<open>x\<close>, \<open>y\<close>, \<open>data\<close>, \<open>layer\<close>,
  \<open>hidden\<close>); \<open>y0\<close> is the baseline that the stack layout adds afterwards. \<open>y\<close> is
  \<open>null\<close> for a hidden layer. \<open>hidden\<close> copies the layer's flag, which is \<open>undefined\<close>
  until \<open>hideStack\<close> or \<open>showStack\<close> has set it.
\<close>

record ('k, 'd) point =
  pt_x :: 'k
  pt_y :: "real option"
  pt_data :: 'd
  pt_layer :: string
  pt_hidden :: "bool option"
  pt_y0 :: "real option"

text \<open>
  A layer of \<open>_stack\<close>: \<open>{group: group}\<close> with the optional properties \<open>name\<close>,
  \<open>accessor\<close>, \<open>hidden\<close> and \<open>values\<close>. The crossfilter group is represented by the
  records that \<open>group.all()\<close> returns.
\<close>

record ('k, 'd) layer =
  l_group :: "'d list"
  l_name :: "string option"
  l_accessor :: "('d \<Rightarrow> nat \<Rightarrow> real) option"
  l_hidden :: "bool option"
  l_values :: "('k, 'd) point list option"

text \<open>
  What the stack mixin reads from the chart: the key and value accessors, the scale
  \<open>_chart.y()\<close> (\<open>None\<close> when no scale is set, otherwise its domain array),
  \<open>_chart.isOrdinal()\<close>, \<open>_chart.elasticX()\<close> and \<open>_chart.elasticY()\<close>.
\<close>

record ('k, 'd) chart =
  keyAccessor :: "'d \<Rightarrow> nat \<Rightarrow> 'k"
  valueAccessor :: "'d \<Rightarrow> nat \<Rightarrow> real"
  y_scale :: "'k list option"
  isOrdinal :: bool
  elasticX :: bool
  elasticY :: bool

text \<open>The output of \<open>flipXY\<close>: points with \<open>x\<close> and \<open>y\<close> exchanged and \<open>y0\<close> renamed \<open>x0\<close>.\<close>

record ('k, 'd) flipped =
  fp_data :: 'd
  fp_hidden :: "bool option"
  fp_layer :: string
  fp_x :: "real option"
  fp_y :: 'k
  fp_x0 :: "real option"

record ('k, 'd) out_layer =
  o_group :: "'d list"
  o_name :: "string option"
  o_accessor :: "('d \<Rightarrow> nat \<Rightarrow> real) option"
  o_values :: "('k, 'd) flipped list"

subsection \<open>\<open>String(layerIdx)\<close>\<close>

definition digit_char :: "nat \<Rightarrow> char" where
  "digit_char n = ''0123456789'' ! n"

fun string_of_nat :: "nat \<Rightarrow> string" where
  "string_of_nat n =
     (if n < 10 then [digit_char n]
      else string_of_nat (n div 10) @ [digit_char (n mod 10)])"

declare string_of_nat.simps [simp del]

subsection \<open>\<open>domainFilter\<close> and \<open>prepareValues\<close>\<close>

text \<open>
  \<open>domainFilter\<close> (lines 37-56). On an empty domain array \<open>yDomain[0]\<close> is \<open>undefined\<close>
  and both comparisons are false.
\<close>

definition domainFilter :: "('k::linorder, 'd) chart \<Rightarrow> ('k, 'd) point \<Rightarrow> bool" where
  "domainFilter ch p =
     (case y_scale ch of
        None \<Rightarrow> True
      | Some yDomain \<Rightarrow>
          if isOrdinal ch then True
          else if elasticX ch then True
          else (case yDomain of
                  [] \<Rightarrow> False
                | _ # _ \<Rightarrow> hd yDomain \<le> pt_x p \<and> pt_x p \<le> last yDomain))"

text \<open>\<open>layer.accessor || _chart.valueAccessor()\<close>\<close>

definition valAccessor :: "('k, 'd) chart \<Rightarrow> ('k, 'd) layer \<Rightarrow> 'd \<Rightarrow> nat \<Rightarrow> real" where
  "valAccessor ch l = (case l_accessor l of Some f \<Rightarrow> f | None \<Rightarrow> valueAccessor ch)"

text \<open>\<open>String(layer.name || layerIdx)\<close>: the empty string is falsy.\<close>

definition layer_name :: "('k, 'd) layer \<Rightarrow> nat \<Rightarrow> string" where
  "layer_name l layerIdx =
     (case l_name l of
        None \<Rightarrow> string_of_nat layerIdx
      | Some s \<Rightarrow> if s = [] then string_of_nat layerIdx else s)"

text \<open>
  \<open>prepareValues\<close> (lines 11-27). It assigns \<open>layer.name\<close> and \<open>layer.values\<close>; the
  model returns the updated layer.
\<close>

definition prepareValues ::
  "('k::linorder, 'd) chart \<Rightarrow> ('k, 'd) layer \<Rightarrow> nat \<Rightarrow> ('k, 'd) layer" where
  "prepareValues ch l layerIdx =
     (let nm = layer_name l layerIdx;
          vals = map (\<lambda>(i, d).
                   \<lparr>pt_x = keyAccessor ch d i,
                    pt_y = (if l_hidden l = Some True then None else Some (valAccessor ch l d i)),
                    pt_data = d,
                    pt_layer = nm,
                    pt_hidden = l_hidden l,
                    pt_y0 = None\<rparr>) (enumerate 0 (l_group l))
      in l\<lparr>l_name := Some nm, l_values := Some (filter (domainFilter ch) vals)\<rparr>)"

subsection \<open>The stack layout\<close>

text \<open>The value a layer's points contribute at a key; \<open>null\<close> counts as 0.\<close>

definition value_at :: "('k, 'd) point list \<Rightarrow> 'k \<Rightarrow> real" where
  "value_at vs k =
     sum_list (map (\<lambda>p. case pt_y p of None \<Rightarrow> 0 | Some v \<Rightarrow> v) (filter (\<lambda>p. pt_x p = k) vs))"

text \<open>
  Modelled from the spec: the baseline assignment of \<open>d3.layout.stack\<close>, which is not under
  src/. Layers are processed in the order given; the baseline of a point of layer \<open>i\<close> is
  the sum of the values of layers \<open>0..i-1\<close> at the point's key, a missing key counting as
  0, and the baseline of layer 0 is 0. The running total per key is \<open>acc\<close>.
\<close>

fun assign_baselines ::
  "('k \<Rightarrow> real) \<Rightarrow> ('k, 'd) point list list \<Rightarrow> ('k, 'd) point list list" where
  "assign_baselines acc [] = []"
| "assign_baselines acc (vs # rest) =
     map (\<lambda>p. p\<lparr>pt_y0 := Some (acc (pt_x p))\<rparr>) vs
       # assign_baselines (\<lambda>k. acc k + value_at vs k) rest"

definition the_values :: "('k, 'd) layer \<Rightarrow> ('k, 'd) point list" where
  "the_values l = (case l_values l of None \<Rightarrow> [] | Some vs \<Rightarrow> vs)"

text \<open>
  Modelled from the spec: \<open>d3.layout.stack().values(prepareValues)\<close> applied to an array
  of layers. The layout calls the values accessor on every layer with the layer's index
  in that array, assigns the baselines, and returns the same (mutated) layers.
\<close>

definition stackLayout ::
  "('k::linorder, 'd) chart \<Rightarrow> ('k, 'd) layer list \<Rightarrow> ('k, 'd) layer list" where
  "stackLayout ch layers =
     (let series = map (\<lambda>(i, l). prepareValues ch l i) (enumerate 0 layers);
          stacked = assign_baselines (\<lambda>k. 0) (map the_values series)
      in map (\<lambda>(l, vs). l\<lparr>l_values := Some vs\<rparr>) (zip series stacked))"

subsection \<open>\<open>visability\<close>, \<open>flipXY\<close> and the data function\<close>

definition visability :: "('k, 'd) layer \<Rightarrow> bool" where
  "visability l = (l_hidden l \<noteq> Some True)"

definition flip_point :: "('k, 'd) point \<Rightarrow> ('k, 'd) flipped" where
  "flip_point v =
     \<lparr>fp_data = pt_data v, fp_hidden = pt_hidden v, fp_layer = pt_layer v,
      fp_x = pt_y v, fp_y = pt_x v, fp_x0 = pt_y0 v\<rparr>"

definition flipXY :: "('k, 'd) layer list \<Rightarrow> ('k, 'd) out_layer list" where
  "flipXY layers =
     map (\<lambda>l. \<lparr>o_group = l_group l, o_name = l_name l, o_accessor = l_accessor l,
               o_values = map flip_point (the_values l)\<rparr>) layers"

text \<open>
  The layers handed to the layout are the objects of \<open>_stack\<close> themselves, so what the
  layout assigns to them is visible in \<open>_stack\<close>: \<open>write_back\<close> puts the processed
  layers back at the positions of the visible ones.
\<close>

fun write_back :: "('k, 'd) layer list \<Rightarrow> ('k, 'd) layer list \<Rightarrow> ('k, 'd) layer list" where
  "write_back [] ps = []"
| "write_back (l # ls) ps =
     (if visability l
      then (case ps of [] \<Rightarrow> l # write_back ls [] | p # ps' \<Rightarrow> p # write_back ls ps')
      else l # write_back ls ps)"

text \<open>
  The data function (lines 295-302), returning the stacked output together with the
  updated \<open>_stack\<close>.
\<close>

definition data ::
  "('k::linorder, 'd) chart \<Rightarrow> ('k, 'd) layer list
     \<Rightarrow> ('k, 'd) out_layer list \<times> ('k, 'd) layer list" where
  "data ch st =
     (let layers = filter visability st
      in if layers = [] then ([], st)
         else (let stackedLayers = stackLayout ch layers
               in (flipXY stackedLayers, write_back st stackedLayers)))"

subsection \<open>\<open>stack\<close>, \<open>findLayerByName\<close>, \<open>hideStack\<close> and \<open>showStack\<close>\<close>

text \<open>
  \<open>_chart.stack(group, name, accessor)\<close> (lines 80-99): \<open>name\<close> is kept when it is a
  string, \<open>accessor\<close> when it is a function.
\<close>

definition stack ::
  "'d list \<Rightarrow> string option \<Rightarrow> ('d \<Rightarrow> nat \<Rightarrow> real) option \<Rightarrow> ('k, 'd) layer list
     \<Rightarrow> ('k, 'd) layer list" where
  "stack g n f st =
     st @ [\<lparr>l_group = g, l_name = n, l_accessor = f, l_hidden = None, l_values = None\<rparr>]"

text \<open>
  \<open>findLayerByName\<close> (lines 132-135): the index of the first layer whose name is the
  string \<open>n\<close>; \<open>indexOf\<close> returns -1 when there is none and \<open>_stack[-1]\<close> is \<open>undefined\<close>.
\<close>

fun index_of :: "'a list \<Rightarrow> 'a \<Rightarrow> nat option" where
  "index_of [] a = None"
| "index_of (b # bs) a = (if b = a then Some 0 else map_option Suc (index_of bs a))"

definition findLayerByName :: "string \<Rightarrow> ('k, 'd) layer list \<Rightarrow> nat option" where
  "findLayerByName n st = index_of (map l_name st) (Some n)"

definition hideStack :: "string \<Rightarrow> ('k, 'd) layer list \<Rightarrow> ('k, 'd) layer list" where
  "hideStack stackName st =
     (case findLayerByName stackName st of
        None \<Rightarrow> st
      | Some i \<Rightarrow> st[i := (st ! i)\<lparr>l_hidden := Some True\<rparr>])"

definition showStack :: "string \<Rightarrow> ('k, 'd) layer list \<Rightarrow> ('k, 'd) layer list" where
  "showStack stackName st =
     (case findLayerByName stackName st of
        None \<Rightarrow> st
      | Some i \<Rightarrow> st[i := (st ! i)\<lparr>l_hidden := Some False\<rparr>])"

subsection \<open>Notions used to state the properties\<close>

text \<open>
  The value of a layer at a key, read from the layer's source: the sum of the value
  accessor over the records of the group whose key is \<open>k\<close>; 0 when there is none.
\<close>

definition raw_value :: "('k, 'd) chart \<Rightarrow> ('k, 'd) layer \<Rightarrow> 'k \<Rightarrow> real" where
  "raw_value ch l k =
     sum_list (map (\<lambda>(i, d). valAccessor ch l d i)
                   (filter (\<lambda>(i, d). keyAccessor ch d i = k) (enumerate 0 (l_group l))))"

text \<open>The layers after the layout has called \<open>prepareValues\<close> on each of them.\<close>

definition series :: "('k::linorder, 'd) chart \<Rightarrow> ('k, 'd) layer list \<Rightarrow> ('k, 'd) layer list" where
  "series ch layers = map (\<lambda>(i, l). prepareValues ch l i) (enumerate 0 layers)"

text \<open>
  The output with a function applied to the \<open>hidden\<close> field of every point, and the
  output with that field read as a boolean (\<open>undefined\<close> and \<open>false\<close> both become
  \<open>false\<close>).
\<close>

definition map_hidden ::
  "(bool option \<Rightarrow> bool option) \<Rightarrow> ('k, 'd) out_layer list \<Rightarrow> ('k, 'd) out_layer list" where
  "map_hidden h out = map (\<lambda>ol. ol\<lparr>o_values := map (fp_hidden_update h) (o_values ol)\<rparr>) out"

definition norm_hidden :: "('k, 'd) out_layer list \<Rightarrow> ('k, 'd) out_layer list" where
  "norm_hidden out = map_hidden (\<lambda>h. Some (h = Some True)) out"

text \<open>
  Two layers that agree on everything \<open>prepareValues\<close> reads, up to a function \<open>h\<close> of
  the hidden flag.
\<close>

definition same_layer ::
  "(bool option \<Rightarrow> bool option) \<Rightarrow> ('k, 'd) layer \<Rightarrow> ('k, 'd) layer \<Rightarrow> bool" where
  "same_layer h a b \<longleftrightarrow>
     l_group a = l_group b \<and> l_accessor a = l_accessor b \<and> l_name a = l_name b
     \<and> (l_hidden a = Some True \<longleftrightarrow> l_hidden b = Some True) \<and> h (l_hidden a) = h (l_hidden b)"

text \<open>
  The output of the data function after \<open>hideStack(n)\<close> and \<open>showStack(n)\<close>, called
  on the registry as an earlier data computation has left it.
\<close>

definition after_hide_show ::
  "('k::linorder, 'd) chart \<Rightarrow> string \<Rightarrow> ('k, 'd) layer list \<Rightarrow> ('k, 'd) out_layer list" where
  "after_hide_show ch n st = fst (data ch (showStack n (hideStack n (snd (data ch st)))))"

section \<open>The bar chart (src/bar-chart-horizontal.js)\<close>

subsection \<open>JavaScript numbers with infinities and NaN\<close>

text \<open>
  \<open>calculateBarHeight\<close> divides by the unit count and tests its result against
  \<open>Infinity\<close> and \<open>NaN\<close>, so here a number is a real, an infinity or NaN. The arithmetic
  is IEEE 754 without rounding and without a negative zero: a division by zero takes the
  sign of the dividend.
\<close>

datatype jsnum = Fin real | PInf | NInf | NaN

fun js_neg :: "jsnum \<Rightarrow> jsnum" where
  "js_neg (Fin a) = Fin (- a)"
| "js_neg PInf = NInf"
| "js_neg NInf = PInf"
| "js_neg NaN = NaN"

fun js_add :: "jsnum \<Rightarrow> jsnum \<Rightarrow> jsnum" where
  "js_add NaN _ = NaN"
| "js_add _ NaN = NaN"
| "js_add (Fin a) (Fin b) = Fin (a + b)"
| "js_add PInf NInf = NaN"
| "js_add NInf PInf = NaN"
| "js_add PInf _ = PInf"
| "js_add _ PInf = PInf"
| "js_add NInf _ = NInf"
| "js_add _ NInf = NInf"

definition js_sub :: "jsnum \<Rightarrow> jsnum \<Rightarrow> jsnum" where
  "js_sub a b = js_add a (js_neg b)"

fun js_mul :: "jsnum \<Rightarrow> jsnum \<Rightarrow> jsnum" where
  "js_mul NaN _ = NaN"
| "js_mul _ NaN = NaN"
| "js_mul (Fin a) (Fin b) = Fin (a * b)"
| "js_mul (Fin a) PInf = (if a = 0 then NaN else if 0 < a then PInf else NInf)"
| "js_mul (Fin a) NInf = (if a = 0 then NaN else if 0 < a then NInf else PInf)"
| "js_mul PInf (Fin b) = (if b = 0 then NaN else if 0 < b then PInf else NInf)"
| "js_mul NInf (Fin b) = (if b = 0 then NaN else if 0 < b then NInf else PInf)"
| "js_mul PInf PInf = PInf"
| "js_mul PInf NInf = NInf"
| "js_mul NInf PInf = NInf"
| "js_mul NInf NInf = PInf"

fun js_div :: "jsnum \<Rightarrow> jsnum \<Rightarrow> jsnum" where
  "js_div NaN _ = NaN"
| "js_div _ NaN = NaN"
| "js_div (Fin a) (Fin b) =
     (if b \<noteq> 0 then Fin (a / b)
      else if a = 0 then NaN else if 0 < a then PInf else NInf)"
| "js_div (Fin a) PInf = Fin 0"
| "js_div (Fin a) NInf = Fin 0"
| "js_div PInf (Fin b) = (if 0 \<le> b then PInf else NInf)"
| "js_div NInf (Fin b) = (if 0 \<le> b then NInf else PInf)"
| "js_div PInf PInf = NaN"
| "js_div PInf NInf = NaN"
| "js_div NInf PInf = NaN"
| "js_div NInf NInf = NaN"

text \<open>\<open>Math.floor\<close>\<close>

fun js_floor :: "jsnum \<Rightarrow> jsnum" where
  "js_floor (Fin a) = Fin (of_int \<lfloor>a\<rfloor>)"
| "js_floor PInf = PInf"
| "js_floor NInf = NInf"
| "js_floor NaN = NaN"

text \<open>The comparison \<open><\<close>: false when an operand is NaN.\<close>

fun js_lt :: "jsnum \<Rightarrow> jsnum \<Rightarrow> bool" where
  "js_lt NaN _ = False"
| "js_lt _ NaN = False"
| "js_lt (Fin a) (Fin b) = (a < b)"
| "js_lt _ NInf = False"
| "js_lt PInf _ = False"
| "js_lt NInf _ = True"
| "js_lt (Fin a) PInf = True"

fun js_isNaN :: "jsnum \<Rightarrow> bool" where
  "js_isNaN NaN = True"
| "js_isNaN _ = False"

text \<open>A number is truthy unless it is 0 or NaN.\<close>

fun js_truthy :: "jsnum \<Rightarrow> bool" where
  "js_truthy (Fin a) = (a \<noteq> 0)"
| "js_truthy NaN = False"
| "js_truthy _ = True"

subsection \<open>\<open>calculateBarHeight\<close>\<close>

text \<open>
  What \<open>calculateBarHeight\<close> reads: the cached \<open>_barHeight\<close> (\<open>undefined\<close> after
  \<open>rescale\<close>), \<open>_gap\<close> (\<open>undefined\<close> after \<open>barPadding\<close> has been set),
  \<open>_chart.isOrdinal()\<close>, \<open>_chart.yUnitCount()\<close>, the band width
  \<open>_chart.y().rangeBand()\<close> of the ordinal scale, \<open>_chart.yAxisHeight()\<close> and
  \<open>_chart.barPadding()\<close>.
\<close>

record bar_chart =
  barHeight :: "jsnum option"
  gap :: "jsnum option"
  bc_isOrdinal :: bool
  yUnitCount :: jsnum
  rangeBand :: jsnum
  yAxisHeight :: jsnum
  barPadding :: jsnum

definition MIN_BAR_HEIGHT :: jsnum where
  "MIN_BAR_HEIGHT = Fin 1"

definition DEFAULT_GAP_BETWEEN_BARS :: jsnum where
  "DEFAULT_GAP_BETWEEN_BARS = Fin 2"

text \<open>The three branches of lines 191-197.\<close>

definition raw_bar_height :: "bar_chart \<Rightarrow> jsnum" where
  "raw_bar_height c =
     (let numberOfBars = yUnitCount c;
          padded = js_floor (js_div (js_div (yAxisHeight c) (js_add (Fin 1) (barPadding c)))
                                    numberOfBars)
      in case gap c of
           None \<Rightarrow> if bc_isOrdinal c then js_floor (rangeBand c) else padded
         | Some g \<Rightarrow>
             if js_truthy g
             then js_floor (js_div (js_sub (yAxisHeight c)
                                           (js_mul (js_sub numberOfBars (Fin 1)) g))
                                   numberOfBars)
             else padded)"

text \<open>\<open>calculateBarHeight\<close> (lines 186-203), returning the chart with \<open>_barHeight\<close> set.\<close>

definition calculateBarHeight :: "bar_chart \<Rightarrow> bar_chart" where
  "calculateBarHeight c =
     (case barHeight c of
        Some _ \<Rightarrow> c
      | None \<Rightarrow>
          (let h = raw_bar_height c
           in if h = PInf \<or> js_isNaN h \<or> js_lt h MIN_BAR_HEIGHT
              then c\<lparr>barHeight := Some MIN_BAR_HEIGHT\<rparr>
              else c\<lparr>barHeight := Some h\<rparr>))"

section \<open>The coordinate grid mixin (src/horizontal-coordinate-grid-mixin.js)\<close>

subsection \<open>State\<close>

text \<open>
  A range \<open>[lo, hi]\<close>: a continuous scale domain, a brush extent, or the ranged filter
  \<open>dc.filters.RangedFilter(lo, hi)\<close>, which is the array \<open>[lo, hi]\<close>.
\<close>

type_synonym range = "real \<times> real"

text \<open>
  The state of a chart with a continuous secondary axis, as far as the zoom, brush and
  filter code reads and writes it: the domain of the scale \<open>_y\<close>, \<open>_yOriginalDomain\<close>,
  \<open>_lastYDomain\<close>, \<open>_yElasticity\<close>, the values that \<open>yAxisMin()\<close> and \<open>yAxisMax()\<close>
  (lines 865-884) compute from the data source, \<open>_zoomOutRestrict\<close>, \<open>_refocused\<close>,
  \<open>_resizing\<close>, the cache \<open>_unitCount\<close>, \<open>_brushOn\<close>, the extent of \<open>_brush\<close>
  (\<open>None\<close> when there is no selection), \<open>_round\<close>, and the active filter that the base
  mixin holds (\<open>None\<close> for \<open>null\<close>).
\<close>

record grid =
  yDomain :: range
  yOriginalDomain :: range
  lastYDomain :: "range option"
  yElasticity :: bool
  yAxisMin :: real
  yAxisMax :: real
  zoomOutRestrict :: bool
  refocused :: bool
  resizing :: bool
  unitCount :: "real option"
  brushOn :: bool
  brush :: "range option"
  round_fn :: "(real \<Rightarrow> real) option"
  chart_filter :: "range option"

text \<open>
  A closure handed to \<open>dc.events.trigger\<close> with the delay \<open>dc.constants.EVENT_DELAY\<close>:
  it runs later, unless another trigger replaces it.
\<close>

datatype deferred = RedrawGroup | FilterNull | FilterReplace range

text \<open>
  \<open>redrawBrush\<close> calls \<open>_chart.setBrushY\<close> (line 1078), a method that no source file
  defines (the mixin defines \<open>setBrushX\<close>, line 1028), so the call throws a TypeError.
  A function that can reach this call has an outcome: it returns, or it throws and leaves
  the state as it was at the throw.
\<close>

datatype 'a outcome = Returned 'a | Threw 'a

fun state_of :: "'a outcome \<Rightarrow> 'a" where
  "state_of (Returned s) = s"
| "state_of (Threw s) = s"

fun returns :: "'a outcome \<Rightarrow> bool" where
  "returns (Returned s) = True"
| "returns (Threw s) = False"

subsection \<open>Collaborators outside the source files\<close>

text \<open>
  Modelled from the spec: the brush of d3 (\<open>d3.svg.brush\<close>, not under src/). Its extent
  is a range in domain units; \<open>extent(r)\<close> sets it, \<open>clear()\<close> removes the selection, and
  the brush is empty when there is no selection or the extent has equal ends.
\<close>

definition brush_empty :: "grid \<Rightarrow> bool" where
  "brush_empty c = (case brush c of None \<Rightarrow> True | Some r \<Rightarrow> fst r = snd r)"

text \<open>
  Modelled from the spec: \<open>_chart._filter\<close>, the filter function of the base mixin that
  the grid mixin overrides (not under src/): the active filter is set to the value given,
  and cleared by \<open>null\<close>.
\<close>

definition base_filter :: "range option \<Rightarrow> grid \<Rightarrow> grid" where
  "base_filter f c = c\<lparr>chart_filter := f\<rparr>"

subsection \<open>Scale and filter\<close>

text \<open>\<open>_chart.rescale\<close> (lines 117-121)\<close>

definition rescale :: "grid \<Rightarrow> grid" where
  "rescale c = c\<lparr>unitCount := None, resizing := True\<rparr>"

text \<open>\<open>constrainRange\<close> (lines 1217-1222), \<open>d3.max\<close> and \<open>d3.min\<close> of two numbers.\<close>

definition constrainRange :: "range \<Rightarrow> range \<Rightarrow> range" where
  "constrainRange rg constraint =
     (max (fst rg) (fst constraint), min (snd rg) (snd constraint))"

text \<open>
  \<open>rangesEqual\<close> (lines 1276-1288); a range has two elements, so the test for two empty
  arrays never applies.
\<close>

fun rangesEqual :: "range option \<Rightarrow> range option \<Rightarrow> bool" where
  "rangesEqual None None = True"
| "rangesEqual None (Some _) = False"
| "rangesEqual (Some _) None = False"
| "rangesEqual (Some range1) (Some range2) =
     (fst range1 = fst range2 \<and> snd range1 = snd range2)"

text \<open>
  The filter function of the grid mixin (lines 977-991), called with an argument: the
  base function, then the brush is set to the filter or cleared. A range is an array and
  so truthy; \<open>null\<close> is falsy.
\<close>

definition filter_set :: "range option \<Rightarrow> grid \<Rightarrow> grid" where
  "filter_set f c =
     (let c1 = base_filter f c
      in case f of
           Some r \<Rightarrow> c1\<lparr>brush := Some r\<rparr>
         | None \<Rightarrow> c1\<lparr>brush := None\<rparr>)"

text \<open>
  Modelled from the spec: \<open>replaceFilter\<close> of the base mixin (not under src/): the active
  filter is replaced by the filter given, through the chart's filter function.
\<close>

definition replaceFilter :: "range \<Rightarrow> grid \<Rightarrow> grid" where
  "replaceFilter r c = filter_set (Some r) (c\<lparr>chart_filter := None\<rparr>)"

subsection \<open>Drawing\<close>

text \<open>
  \<open>_chart.redrawBrush\<close> (lines 1071-1085). With the brush on, the brush is first set to
  the filter when a filter is active and the brush is empty (lines 1073-1075); then the
  call of the undefined \<open>setBrushY\<close> throws. With the brush off the function returns.
\<close>

definition redrawBrush :: "grid \<Rightarrow> grid outcome" where
  "redrawBrush c =
     (if brushOn c
      then Threw (if chart_filter c \<noteq> None \<and> brush_empty c
                  then c\<lparr>brush := chart_filter c\<rparr> else c)
      else Returned c)"

text \<open>
  \<open>_chart.renderBrush\<close> (lines 1005-1022): \<open>hasFilter()\<close> of the base mixin holds when a
  filter is active.
\<close>

definition renderBrush :: "grid \<Rightarrow> grid outcome" where
  "renderBrush c =
     (if brushOn c
      then (if chart_filter c \<noteq> None then redrawBrush c else Returned c)
      else Returned c)"

text \<open>
  \<open>compareDomains\<close> (lines 465-468) on the last domain and a domain of two numbers: an
  element pair counts as different when both are non-zero and unequal, or when one of
  them is 0 and they are equal.
\<close>

definition elem_differs :: "real \<Rightarrow> real \<Rightarrow> bool" where
  "elem_differs e f = (if e \<noteq> 0 \<and> f \<noteq> 0 then e \<noteq> f else e = f)"

definition compareDomains :: "range option \<Rightarrow> range \<Rightarrow> bool" where
  "compareDomains d1 d2 =
     (case d1 of
        None \<Rightarrow> True
      | Some d \<Rightarrow> elem_differs (fst d) (fst d2) \<or> elem_differs (snd d) (snd d2))"

text \<open>
  \<open>prepareYAxis\<close> (lines 470-501) for a chart that is not ordinal: an elastic axis gets
  the domain \<open>[yAxisMin(), yAxisMax()]\<close>; a changed domain rescales.
\<close>

definition prepareYAxis :: "bool \<Rightarrow> grid \<Rightarrow> grid" where
  "prepareYAxis render c =
     (let c1 = (if yElasticity c then c\<lparr>yDomain := (yAxisMin c, yAxisMax c)\<rparr> else c);
          ydom = yDomain c1;
          c2 = (if render \<or> compareDomains (lastYDomain c1) ydom then rescale c1 else c1)
      in c2\<lparr>lastYDomain := Some ydom\<rparr>)"

text \<open>
  \<open>drawChart\<close> (lines 1169-1194) for a chart that is not ordinal: when the brush call
  throws, \<open>_resizing\<close> is not reset.
\<close>

definition drawChart :: "bool \<Rightarrow> grid \<Rightarrow> grid outcome" where
  "drawChart render c =
     (let c1 = prepareYAxis render c
      in case (if render then renderBrush c1 else redrawBrush c1) of
           Threw c2 \<Rightarrow> Threw c2
         | Returned c2 \<Rightarrow> Returned (c2\<lparr>resizing := False\<rparr>))"

text \<open>\<open>_chart._doRedraw\<close> (lines 1160-1167)\<close>

definition doRedraw :: "grid \<Rightarrow> grid outcome" where
  "doRedraw c = drawChart False c"

text \<open>
  Modelled from the spec: \<open>redraw\<close> of the base mixin (not under src/), the render
  dispatch of a redraw: it runs the chart's \<open>_doRedraw\<close>.
\<close>

definition redraw :: "grid \<Rightarrow> grid outcome" where
  "redraw c = doRedraw c"

subsection \<open>Zoom and focus\<close>

text \<open>
  The first part of \<open>zoomHandler\<close> (lines 27-33) of a chart \<open>c\<close> whose \<open>_rangeChart\<close>
  is \<open>rc\<close> (\<open>None\<close> when no range chart is linked): the domain is constrained to the
  original domain and to the range chart's domain.
\<close>

definition zoom_constrained :: "grid \<Rightarrow> grid option \<Rightarrow> grid" where
  "zoom_constrained c rc =
     (let c1 = c\<lparr>refocused := True\<rparr>
      in if zoomOutRestrict c1
         then (let c' = c1\<lparr>yDomain := constrainRange (yDomain c1) (yOriginalDomain c1)\<rparr>
               in case rc of
                    None \<Rightarrow> c'
                  | Some r \<Rightarrow> c'\<lparr>yDomain := constrainRange (yDomain c') (yDomain r)\<rparr>)
         else c1)"

text \<open>
  \<open>zoomHandler\<close> (lines 26-56). The result holds both charts and the delayed
  \<open>redrawGroup\<close>, if the handler got as far as scheduling it. When the redraw of line 40
  throws, lines 42-55 do not run. The trigger for the range chart (lines 42-47) has no
  delay and runs at once; its \<open>replaceFilter\<close> leaves both filters equal, so the range
  chart's listener of lines 1262-1272 then does nothing; when the range chart's redraw
  throws, lines 49-55 do not run. The zoomed listener of the base mixin is not modelled.
\<close>

definition zoomHandler ::
  "grid \<Rightarrow> grid option \<Rightarrow> (grid \<times> grid option \<times> deferred option) outcome" where
  "zoomHandler c rc =
     (let c2 = zoom_constrained c rc;
          domain = yDomain c2
      in case redraw (rescale (replaceFilter domain c2)) of
           Threw c3 \<Rightarrow> Threw (c3, rc, None)
         | Returned c3 \<Rightarrow>
             (let c4 = c3\<lparr>refocused :=
                         \<not> rangesEqual (Some domain) (Some (yOriginalDomain c3))\<rparr>
              in case rc of
                   None \<Rightarrow> Returned (c4, None, Some RedrawGroup)
                 | Some r \<Rightarrow>
                     if \<not> rangesEqual (chart_filter c3) (chart_filter r)
                     then (case redraw (replaceFilter domain r) of
                             Threw r' \<Rightarrow> Threw (c3, Some r', None)
                           | Returned r' \<Rightarrow> Returned (c4, Some r', Some RedrawGroup))
                     else Returned (c4, Some r, Some RedrawGroup)))"

text \<open>
  \<open>_chart.focus\<close> (lines 1242-1251); \<open>hasRangeSelected\<close> (lines 1312-1314) holds for a
  range and fails for \<open>null\<close>.
\<close>

definition focus ::
  "range option \<Rightarrow> grid \<Rightarrow> grid option
     \<Rightarrow> (grid \<times> grid option \<times> deferred option) outcome" where
  "focus rg c rc =
     zoomHandler (case rg of
                    Some r \<Rightarrow> c\<lparr>yDomain := r\<rparr>
                  | None \<Rightarrow> c\<lparr>yDomain := yOriginalDomain c\<rparr>) rc"

text \<open>
  Two charts linked by \<open>focus_chart.rangeChart(range_chart)\<close> (lines 144-151): the focus
  chart's \<open>_rangeChart\<close> is the range chart, the range chart's \<open>_focusChart\<close> is the focus
  chart, and the range chart carries the listener below.
\<close>

record linked =
  range_chart :: grid
  focus_chart :: grid

definition linked_of :: "grid \<times> grid option \<times> deferred option \<Rightarrow> grid \<Rightarrow> linked" where
  "linked_of res chart =
     \<lparr>range_chart = (case fst (snd res) of Some r \<Rightarrow> r | None \<Rightarrow> chart),
      focus_chart = fst res\<rparr>"

text \<open>
  The listener that \<open>focusChart\<close> registers for the range chart's \<open>filtered\<close> event
  (lines 1262-1272); both triggers have no delay, so a throw inside \<open>focus\<close> leaves the
  listener. The result holds the charts and the delayed closure, if there is one.
\<close>

definition range_filtered :: "linked \<Rightarrow> (linked \<times> deferred option) outcome" where
  "range_filtered s =
     (let chart = range_chart s; fc = focus_chart s
      in if chart_filter chart = None
         then Returned (s\<lparr>focus_chart := fc\<lparr>yDomain := yOriginalDomain fc\<rparr>\<rparr>, None)
         else if \<not> rangesEqual (chart_filter chart) (chart_filter fc)
         then (case focus (chart_filter chart) fc (Some chart) of
                 Threw res \<Rightarrow> Threw (linked_of res chart, None)
               | Returned res \<Rightarrow> Returned (linked_of res chart, snd (snd res)))
         else Returned (s, None))"

subsection \<open>Brushing\<close>

text \<open>
  \<open>_chart.extendBrush\<close> of the grid mixin (lines 1035-1045): the extent of the brush,
  rounded at both ends when a rounding function is set; the rounded extent is written
  back to the brush.
\<close>

definition extendBrush :: "grid \<Rightarrow> range option \<times> grid" where
  "extendBrush c =
     (case round_fn c of
        None \<Rightarrow> (brush c, c)
      | Some f \<Rightarrow>
          (let extent = map_option (\<lambda>e. (f (fst e), f (snd e))) (brush c)
           in (extent, c\<lparr>brush := extent\<rparr>)))"

text \<open>\<open>_chart.brushIsEmpty\<close> (lines 1047-1049)\<close>

definition brushIsEmpty :: "grid \<Rightarrow> range option \<Rightarrow> bool" where
  "brushIsEmpty c extent =
     (brush_empty c \<or> (case extent of None \<Rightarrow> True | Some e \<Rightarrow> snd e \<le> fst e))"

text \<open>
  \<open>_chart._brushing\<close> (lines 1051-1069): \<open>redrawBrush\<close> (line 1054) comes before either
  trigger, so when it throws no closure is handed to \<open>dc.events.trigger\<close>. Otherwise the
  result is the chart and the closure for the delayed trigger.
\<close>

definition brushing :: "grid \<Rightarrow> (grid \<times> deferred option) outcome" where
  "brushing c =
     (case extendBrush c of
        (extent, c1) \<Rightarrow>
          (case redrawBrush c1 of
             Threw c2 \<Rightarrow> Threw (c2, None)
           | Returned c2 \<Rightarrow>
               if brushIsEmpty c2 extent then Returned (c2, Some FilterNull)
               else (case extent of
                       Some e \<Rightarrow> Returned (c2, Some (FilterReplace e))
                     | None \<Rightarrow> Returned (c2, Some FilterNull))))"

text \<open>
  The delayed closure when the trigger fires. \<open>redrawGroup\<close> redraws the charts of the
  group, this one among them.
\<close>

fun run_deferred :: "deferred \<Rightarrow> grid \<Rightarrow> grid outcome" where
  "run_deferred RedrawGroup c = redraw c"
| "run_deferred FilterNull c = redraw (filter_set None c)"
| "run_deferred (FilterReplace r) c = redraw (replaceFilter r c)"

subsection \<open>The filter function on any value\<close>









subsection \<open>Notions used to state the properties\<close>



section \<open>Concrete charts\<close>

text \<open>
  Records are pairs of a key and a value, read by the accessors \<open>fst\<close> and \<open>snd\<close>;
  the scale has the fixed domain \<open>[1, 2]\<close>.
\<close>

definition ex_chart :: "(nat, nat \<times> real) chart" where
  "ex_chart = \<lparr>keyAccessor = (\<lambda>d i. fst d), valueAccessor = (\<lambda>d i. snd d),
     y_scale = Some [1, 2], isOrdinal = False, elasticX = False, elasticY = False\<rparr>"

definition ex_layer ::
  "(nat \<times> real) list \<Rightarrow> string option \<Rightarrow> bool option \<Rightarrow> (nat, nat \<times> real) layer" where
  "ex_layer g n h = \<lparr>l_group = g, l_name = n, l_accessor = None, l_hidden = h, l_values = None\<rparr>"

text \<open>Two visible layers and a hidden one; the key 3 lies outside the domain.\<close>

definition ex_stack :: "(nat, nat \<times> real) layer list" where
  "ex_stack = [ex_layer [(1, 5), (2, 3)] None None,
               ex_layer [(1, 2), (2, 4), (3, 9)] None None,
               ex_layer [(1, 100)] (Some ''c'') (Some True)]"

definition ex_point :: "(nat, nat \<times> real) flipped" where
  "ex_point = \<lparr>fp_data = (2, 4), fp_hidden = None, fp_layer = ''1'', fp_x = Some 4,
                fp_y = 2, fp_x0 = Some 3\<rparr>"

definition ex_point0 :: "(nat, nat \<times> real) flipped" where
  "ex_point0 = \<lparr>fp_data = (1, 5), fp_hidden = None, fp_layer = ''0'', fp_x = Some 5,
                 fp_y = 1, fp_x0 = Some 0\<rparr>"

text \<open>
  A registry built through the interface: a layer named \<open>c\<close>, an unnamed layer, and
  \<open>hideStack('c')\<close> before the first data computation.
\<close>

definition ex_hidden_stack :: "(nat, nat \<times> real) layer list" where
  "ex_hidden_stack = hideStack ''c'' (stack [(1, 2), (2, 4)] None None (stack [(1, 100)] (Some ''c'') None []))"

text \<open>A chart with an elastic category axis and a fixed value axis, and a point of key 3.\<close>

definition ex_elastic_chart :: "(nat, nat \<times> real) chart" where
  "ex_elastic_chart = ex_chart\<lparr>elasticY := True\<rparr>"

definition ex_raw_point :: "(nat, nat \<times> real) point" where
  "ex_raw_point = \<lparr>pt_x = 3, pt_y = Some 9, pt_data = (3, 9), pt_layer = ''1'',
                    pt_hidden = None, pt_y0 = None\<rparr>"

text \<open>
  A bar chart with the default gap on a continuous axis of height 0 whose domain spans half
  a unit, and one with no units at all.
\<close>

definition ex_bar :: bar_chart where
  "ex_bar = \<lparr>barHeight = None, gap = Some DEFAULT_GAP_BETWEEN_BARS, bc_isOrdinal = False,
     yUnitCount = Fin (1 / 2), rangeBand = NaN, yAxisHeight = Fin 0, barPadding = Fin 0\<rparr>"

definition ex_bar_no_units :: bar_chart where
  "ex_bar_no_units = ex_bar\<lparr>yUnitCount := Fin 0, yAxisHeight := Fin 300\<rparr>"

definition ex_bar_no_height :: bar_chart where
  "ex_bar_no_height = ex_bar\<lparr>yUnitCount := Fin 10\<rparr>"

text \<open>
  A chart with the brush off and the original domain \<open>[0, 100]\<close>, zoomed to
  \<open>[10, 20]\<close>, whose data keys run from 0 to 500; the same chart with an elastic axis,
  zoomed out beyond its original domain, and zoomed to a domain outside the original one.
\<close>

definition ex_grid :: grid where
  "ex_grid = \<lparr>yDomain = (10, 20), yOriginalDomain = (0, 100), lastYDomain = Some (0, 100),
     yElasticity = False, yAxisMin = 0, yAxisMax = 500, zoomOutRestrict = True,
     refocused = False, resizing = False, unitCount = None, brushOn = False, brush = None,
     round_fn = None, chart_filter = None\<rparr>"




text \<open>
  A range chart with the domain \<open>[0, 100]\<close> and the filter \<open>[10, 80]\<close>, linked to a
  focus chart with the original domain \<open>[0, 50]\<close>.
\<close>

definition ex_range_grid :: grid where
  "ex_range_grid = ex_grid\<lparr>yDomain := (0, 100), brush := Some (10, 80),
     chart_filter := Some (10, 80)\<rparr>"

definition ex_focus_grid :: grid where
  "ex_focus_grid = ex_grid\<lparr>yDomain := (0, 50), yOriginalDomain := (0, 50)\<rparr>"

definition ex_linked :: linked where
  "ex_linked = \<lparr>range_chart = ex_range_grid, focus_chart = ex_focus_grid\<rparr>"

text \<open>
  The same pair with the range chart's filter \<open>[10, 20]\<close>, inside both domains; with the
  focus chart's brush on; and with the range chart's filter cleared while the focus chart
  is zoomed to \<open>[10, 20]\<close>.
\<close>

definition ex_linked_inside :: linked where
  "ex_linked_inside = \<lparr>range_chart = ex_range_grid\<lparr>brush := Some (10, 20),
       chart_filter := Some (10, 20)\<rparr>,
     focus_chart = ex_focus_grid\<rparr>"

definition ex_linked_brush_on :: linked where
  "ex_linked_brush_on = ex_linked_inside\<lparr>focus_chart := ex_focus_grid\<lparr>brushOn := True\<rparr>\<rparr>"

definition ex_linked_cleared :: linked where
  "ex_linked_cleared = \<lparr>range_chart = ex_range_grid\<lparr>brush := None, chart_filter := None\<rparr>,
     focus_chart = ex_focus_grid\<lparr>yDomain := (10, 20), chart_filter := Some (10, 20)\<rparr>\<rparr>"

text \<open>A chart with the brush on, as \<open>_brushOn\<close> is by default, and the brush extent \<open>[2, 8]\<close>.\<close>

definition ex_brushed :: grid where
  "ex_brushed = ex_grid\<lparr>brushOn := True, brush := Some (2, 8)\<rparr>"


section \<open>Properties of the stack mixin\<close>

subsection \<open>Unknown stack names\<close>

lemma index_of_None: "index_of bs a = None \<longleftrightarrow> a \<notin> set bs"
  by (induction bs) auto

lemma index_of_Some: "index_of bs a = Some i \<Longrightarrow> i < length bs \<and> bs ! i = a"
  by (induction bs arbitrary: i) (auto split: if_splits)

text \<open>
  C8: for a stack name that is the name of no registered layer, \<open>hideStack\<close> and
  \<open>showStack\<close> leave the layer registry, and so every hidden flag, unchanged. (The
  functions are total, so no error is raised; both return the chart, which the model
  represents by the registry.)
\<close>

theorem hide_show_unknown_name_noop:
  assumes "\<forall>l \<in> set st. l_name l \<noteq> Some n"
  shows "hideStack n st = st \<and> showStack n st = st"
proof -
  have "Some n \<notin> set (map l_name st)"
    using assms by auto
  then have "findLayerByName n st = None"
    by (simp add: findLayerByName_def index_of_None)
  then show ?thesis
    by (simp add: hideStack_def showStack_def)
qed

theorem hide_show_unknown_name_noop_witness:
  "Some ''0'' \<notin> set (map l_name ex_stack)
   \<and> hideStack ''0'' ex_stack = ex_stack \<and> showStack ''0'' ex_stack = ex_stack"
proof -
  have h: "\<forall>l \<in> set ex_stack. l_name l \<noteq> Some ''0''"
    by (simp add: ex_stack_def ex_layer_def)
  have "Some ''0'' \<notin> set (map l_name ex_stack)"
    by (simp add: ex_stack_def ex_layer_def)
  with hide_show_unknown_name_noop [OF h] show ?thesis by simp
qed

subsection \<open>Baselines\<close>

lemma assign_baselines_length: "length (assign_baselines acc vss) = length vss"
  by (induction vss arbitrary: acc) auto

lemma assign_baselines_nth:
  "i < length vss \<Longrightarrow>
   assign_baselines acc vss ! i =
     map (\<lambda>p. p\<lparr>pt_y0 := Some (acc (pt_x p) + (\<Sum>j<i. value_at (vss ! j) (pt_x p)))\<rparr>) (vss ! i)"
proof (induction vss arbitrary: acc i)
  case Nil
  then show ?case by simp
next
  case (Cons vs rest)
  show ?case
  proof (cases i)
    case 0
    then show ?thesis by simp
  next
    case (Suc n)
    with Cons.prems have n: "n < length rest" by simp
    have shift: "(\<Sum>j<Suc n. value_at ((vs # rest) ! j) k)
                 = value_at vs k + (\<Sum>j<n. value_at (rest ! j) k)" for k
      by (subst sum.lessThan_Suc_shift) simp
    have "assign_baselines acc (vs # rest) ! i
          = assign_baselines (\<lambda>k. acc k + value_at vs k) rest ! n"
      using Suc by simp
    also have "\<dots> = map (\<lambda>p. p\<lparr>pt_y0 := Some (acc (pt_x p) + value_at vs (pt_x p)
                 + (\<Sum>j<n. value_at (rest ! j) (pt_x p)))\<rparr>) (rest ! n)"
      by (rule Cons.IH [OF n])
    also have "\<dots> = map (\<lambda>p. p\<lparr>pt_y0 := Some (acc (pt_x p)
                 + (\<Sum>j<i. value_at ((vs # rest) ! j) (pt_x p)))\<rparr>) ((vs # rest) ! i)"
      unfolding Suc shift by (simp add: add.assoc)
    finally show ?thesis .
  qed
qed

lemma domainFilter_key: "pt_x p = pt_x q \<Longrightarrow> domainFilter ch p = domainFilter ch q"
  by (simp add: domainFilter_def split: option.splits list.splits)

lemma the_values_prepareValues:
  "the_values (prepareValues ch l n) =
     filter (domainFilter ch)
       (map (\<lambda>(i, d).
               \<lparr>pt_x = keyAccessor ch d i,
                pt_y = (if l_hidden l = Some True then None else Some (valAccessor ch l d i)),
                pt_data = d, pt_layer = layer_name l n, pt_hidden = l_hidden l,
                pt_y0 = None\<rparr>) (enumerate 0 (l_group l)))"
  by (simp add: prepareValues_def the_values_def Let_def)

lemma filter_key_domainFilter:
  assumes "\<And>q. pt_x q = k \<Longrightarrow> domainFilter ch q"
  shows "filter (\<lambda>q. pt_x q = k) (filter (domainFilter ch) xs) = filter (\<lambda>q. pt_x q = k) xs"
  using assms by (induction xs) auto

lemma sum_list_map_filter_enumerate:
  fixes g :: "'d list"
  assumes "l_hidden l \<noteq> Some True"
  shows "sum_list (map (\<lambda>p. case pt_y p of None \<Rightarrow> 0 | Some v \<Rightarrow> v)
           (filter (\<lambda>q. pt_x q = k)
              (map (\<lambda>(i, d).
               \<lparr>pt_x = keyAccessor ch d i,
                pt_y = (if l_hidden l = Some True then None else Some (valAccessor ch l d i)),
                pt_data = d, pt_layer = nm, pt_hidden = l_hidden l,
                pt_y0 = None\<rparr>) xs)))
       = sum_list (map (\<lambda>(i, d). valAccessor ch l d i)
                   (filter (\<lambda>(i, d). keyAccessor ch d i = k) xs))"
  using assms by (induction xs) auto

lemma value_at_prepareValues:
  assumes vis: "visability l" and ok: "domainFilter ch p" and k: "pt_x p = k"
  shows "value_at (the_values (prepareValues ch l n)) k = raw_value ch l k"
proof -
  have pass: "\<And>q. pt_x q = k \<Longrightarrow> domainFilter ch q"
  proof -
    fix q :: "('a, 'b) point"
    assume "pt_x q = k"
    then have "domainFilter ch q = domainFilter ch p"
      using k by (intro domainFilter_key) simp
    then show "domainFilter ch q" using ok by blast
  qed
  have h: "l_hidden l \<noteq> Some True"
    using vis by (simp add: visability_def)
  show ?thesis
    unfolding value_at_def raw_value_def the_values_prepareValues
    by (simp only: filter_key_domainFilter [OF pass] sum_list_map_filter_enumerate [OF h])
qed

lemma series_length: "length (series ch layers) = length layers"
  by (simp add: series_def)

lemma series_nth: "j < length layers \<Longrightarrow> series ch layers ! j = prepareValues ch (layers ! j) j"
  by (simp add: series_def nth_enumerate_eq)

lemma stackLayout_series:
  "stackLayout ch layers =
     map (\<lambda>(l, vs). l\<lparr>l_values := Some vs\<rparr>)
       (zip (series ch layers) (assign_baselines (\<lambda>k. 0) (map the_values (series ch layers))))"
  unfolding stackLayout_def series_def Let_def ..

lemma stackLayout_length: "length (stackLayout ch layers) = length layers"
  by (simp add: stackLayout_series series_length assign_baselines_length)

lemma stackLayout_nth:
  assumes "i < length layers"
  shows "stackLayout ch layers ! i =
     (prepareValues ch (layers ! i) i)\<lparr>l_values := Some
        (map (\<lambda>p. p\<lparr>pt_y0 := Some (\<Sum>j<i. value_at (the_values (prepareValues ch (layers ! j) j)) (pt_x p))\<rparr>)
             (the_values (prepareValues ch (layers ! i) i)))\<rparr>"
proof -
  let ?ser = "series ch layers"
  have i: "i < length ?ser" using assms by (simp add: series_length)
  have eq: "(\<Sum>j<i. value_at (map the_values ?ser ! j) k)
        = (\<Sum>j<i. value_at (the_values (prepareValues ch (layers ! j) j)) k)" for k
  proof (rule sum.cong)
    fix j assume "j \<in> {..<i}"
    then have j: "j < length layers" using assms by simp
    then have "map the_values ?ser ! j = the_values (?ser ! j)"
      by (simp add: series_length)
    then show "value_at (map the_values ?ser ! j) k = value_at (the_values (prepareValues ch (layers ! j) j)) k"
      by (simp only: series_nth [OF j])
  qed simp
  have "stackLayout ch layers ! i = (?ser ! i)\<lparr>l_values := Some (assign_baselines (\<lambda>k. 0) (map the_values ?ser) ! i)\<rparr>"
    using i by (simp add: stackLayout_series assign_baselines_length)
  also have "assign_baselines (\<lambda>k. 0) (map the_values ?ser) ! i =
     map (\<lambda>p. p\<lparr>pt_y0 := Some (0 + (\<Sum>j<i. value_at (map the_values ?ser ! j) (pt_x p)))\<rparr>) (map the_values ?ser ! i)"
    using i by (intro assign_baselines_nth) simp
  also have "map the_values ?ser ! i = the_values (prepareValues ch (layers ! i) i)"
    using i by (simp add: series_nth [OF assms])
  finally show ?thesis
    by (simp only: eq series_nth [OF assms] add_0)
qed

lemma data_nonempty:
  "filter visability st \<noteq> [] \<Longrightarrow>
   data ch st = (flipXY (stackLayout ch (filter visability st)),
                 write_back st (stackLayout ch (filter visability st)))"
  by (simp add: data_def Let_def)

lemma data_empty: "filter visability st = [] \<Longrightarrow> data ch st = ([], st)"
  by (simp add: data_def Let_def)

lemma prepareValues_fields:
  "l_group (prepareValues ch l n) = l_group l"
  "l_accessor (prepareValues ch l n) = l_accessor l"
  "l_hidden (prepareValues ch l n) = l_hidden l"
  "l_name (prepareValues ch l n) = Some (layer_name l n)"
  by (simp_all add: prepareValues_def Let_def)

lemma data_groups: "map o_group (fst (data ch st)) = map l_group (filter visability st)"
proof (cases "filter visability st = []")
  case True
  then show ?thesis by (simp add: data_empty)
next
  case False
  let ?vis = "filter visability st"
  have "map o_group (flipXY (stackLayout ch ?vis)) = map l_group (stackLayout ch ?vis)"
    by (simp add: flipXY_def)
  also have "\<dots> = map l_group ?vis"
    by (rule nth_equalityI) (simp_all add: stackLayout_length stackLayout_nth prepareValues_fields)
  finally show ?thesis using False by (simp add: data_nonempty)
qed

lemma data_length: "length (fst (data ch st)) = length (filter visability st)"
  using data_groups [of ch st] by (metis length_map)

lemma data_values_nth:
  assumes "i < length (filter visability st)"
  shows "o_values (fst (data ch st) ! i) =
     map (\<lambda>q. flip_point (q\<lparr>pt_y0 := Some (\<Sum>j<i.
              value_at (the_values (prepareValues ch (filter visability st ! j) j)) (pt_x q))\<rparr>))
         (the_values (prepareValues ch (filter visability st ! i) i))"
proof -
  let ?vis = "filter visability st"
  have ne: "?vis \<noteq> []" using assms by auto
  have "fst (data ch st) ! i =
      \<lparr>o_group = l_group (stackLayout ch ?vis ! i), o_name = l_name (stackLayout ch ?vis ! i),
       o_accessor = l_accessor (stackLayout ch ?vis ! i),
       o_values = map flip_point (the_values (stackLayout ch ?vis ! i))\<rparr>"
    using assms by (simp add: data_nonempty [OF ne] flipXY_def stackLayout_length)
  then show ?thesis
    by (simp add: stackLayout_nth [OF assms] the_values_def comp_def)
qed


lemma string_of_nat_small [simp]:
  "string_of_nat 0 = ''0''" "string_of_nat (Suc 0) = ''1''" "string_of_nat (Suc (Suc 0)) = ''2''"
  by (simp_all add: string_of_nat.simps digit_char_def)

lemmas stack_defs = data_def stackLayout_def prepareValues_def layer_name_def valAccessor_def
  domainFilter_def visability_def flipXY_def flip_point_def the_values_def value_at_def

lemma ex_data:
  "fst (data ex_chart ex_stack) =
     [\<lparr>o_group = [(1, 5), (2, 3)], o_name = Some ''0'', o_accessor = None,
       o_values = [\<lparr>fp_data = (1, 5), fp_hidden = None, fp_layer = ''0'', fp_x = Some 5, fp_y = 1, fp_x0 = Some 0\<rparr>,
                   \<lparr>fp_data = (2, 3), fp_hidden = None, fp_layer = ''0'', fp_x = Some 3, fp_y = 2, fp_x0 = Some 0\<rparr>]\<rparr>,
      \<lparr>o_group = [(1, 2), (2, 4), (3, 9)], o_name = Some ''1'', o_accessor = None,
       o_values = [\<lparr>fp_data = (1, 2), fp_hidden = None, fp_layer = ''1'', fp_x = Some 2, fp_y = 1, fp_x0 = Some 5\<rparr>,
                   \<lparr>fp_data = (2, 4), fp_hidden = None, fp_layer = ''1'', fp_x = Some 4, fp_y = 2, fp_x0 = Some 3\<rparr>]\<rparr>]"
  by (simp add: stack_defs ex_chart_def ex_stack_def ex_layer_def Let_def)

text \<open>
  C1: in the output of the data function, the layers are the visible layers of \<open>_stack\<close>
  in registration order (hidden layers have no output layer), and the baseline \<open>x0\<close> of
  every point of the \<open>i\<close>-th visible layer is the sum, over the visible layers \<open>0..i-1\<close>,
  of the layer's value at the point's key (0 for a layer without that key); for the first
  visible layer it is 0. No point of the output belongs to a hidden layer or has a
  \<open>null\<close> value.
\<close>

theorem stacking_baseline:
  assumes i: "i < length (fst (data ch st))"
    and p: "p \<in> set (o_values (fst (data ch st) ! i))"
  shows "map o_group (fst (data ch st)) = map l_group (filter visability st)
       \<and> fp_x0 p = Some (\<Sum>j<i. raw_value ch (filter visability st ! j) (fp_y p))
       \<and> (i = 0 \<longrightarrow> fp_x0 p = Some 0)
       \<and> fp_hidden p \<noteq> Some True \<and> fp_x p \<noteq> None"
proof -
  let ?vis = "filter visability st"
  have iv: "i < length ?vis" using i by (simp add: data_length)
  have visible: "visability (?vis ! j)" if "j < length ?vis" for j
    using that nth_mem [of j ?vis] by simp
  from p obtain q where q: "q \<in> set (the_values (prepareValues ch (?vis ! i) i))"
    and pq: "p = flip_point (q\<lparr>pt_y0 := Some (\<Sum>j<i.
              value_at (the_values (prepareValues ch (?vis ! j) j)) (pt_x q))\<rparr>)"
    unfolding data_values_nth [OF iv] by auto
  from q have ok: "domainFilter ch q"
    by (simp add: the_values_prepareValues)
  have hid: "l_hidden (?vis ! i) \<noteq> Some True"
    using visible [OF iv] by (simp add: visability_def)
  from q hid have qy: "pt_y q \<noteq> None" and qh: "pt_hidden q \<noteq> Some True"
    by (auto simp: the_values_prepareValues)
  have sum_eq: "(\<Sum>j<i. value_at (the_values (prepareValues ch (?vis ! j) j)) (pt_x q))
        = (\<Sum>j<i. raw_value ch (?vis ! j) (pt_x q))"
  proof (rule sum.cong)
    fix j assume "j \<in> {..<i}"
    then have "j < length ?vis" using iv by simp
    from value_at_prepareValues [OF visible [OF this] ok refl]
    show "value_at (the_values (prepareValues ch (?vis ! j) j)) (pt_x q)
          = raw_value ch (?vis ! j) (pt_x q)" .
  qed simp
  have x0: "fp_x0 p = Some (\<Sum>j<i. raw_value ch (?vis ! j) (fp_y p))"
    by (simp add: pq flip_point_def sum_eq)
  moreover have "i = 0 \<longrightarrow> fp_x0 p = Some 0"
    using x0 by simp
  moreover have "fp_hidden p \<noteq> Some True" "fp_x p \<noteq> None"
    using qy qh by (simp_all add: pq flip_point_def)
  ultimately show ?thesis
    using data_groups [of ch st] by blast
qed


theorem stacking_baseline_witness:
  "0 < length (fst (data ex_chart ex_stack))
   \<and> ex_point0 \<in> set (o_values (fst (data ex_chart ex_stack) ! 0))
   \<and> fp_x0 ex_point0 = Some 0
   \<and> 1 < length (fst (data ex_chart ex_stack))
   \<and> ex_point \<in> set (o_values (fst (data ex_chart ex_stack) ! 1))
   \<and> map o_group (fst (data ex_chart ex_stack)) = map l_group (filter visability ex_stack)
   \<and> fp_x0 ex_point = Some (\<Sum>j<1. raw_value ex_chart (filter visability ex_stack ! j) (fp_y ex_point))
   \<and> fp_hidden ex_point \<noteq> Some True \<and> fp_x ex_point \<noteq> None"
proof -
  have h0: "0 < length (fst (data ex_chart ex_stack))"
    by (simp add: ex_data)
  have p0: "ex_point0 \<in> set (o_values (fst (data ex_chart ex_stack) ! 0))"
    by (simp add: ex_data ex_point0_def)
  have h1: "1 < length (fst (data ex_chart ex_stack))"
    by (simp add: ex_data)
  have p1: "ex_point \<in> set (o_values (fst (data ex_chart ex_stack) ! 1))"
    by (simp add: ex_data ex_point_def)
  from stacking_baseline [OF h0 p0] stacking_baseline [OF h1 p1] h0 p0 h1 p1
  show ?thesis by blast
qed

subsection \<open>The registry after a data computation\<close>

lemma write_back_length: "length (write_back st ps) = length st"
  by (induction st arbitrary: ps) (auto split: list.splits)

lemma write_back_nth:
  "length ps = length (filter visability st) \<Longrightarrow> i < length st \<Longrightarrow>
   write_back st ps ! i =
     (if visability (st ! i) then ps ! length (filter visability (take i st)) else st ! i)"
proof (induction st arbitrary: ps i)
  case Nil
  then show ?case by simp
next
  case (Cons l ls)
  show ?case
  proof (cases i)
    case 0
    with Cons.prems show ?thesis by (cases ps) auto
  next
    case (Suc n)
    show ?thesis
    proof (cases "visability l")
      case True
      with Cons.prems obtain q qs where ps: "ps = q # qs" by (cases ps) auto
      with Cons.prems True Suc have "length qs = length (filter visability ls)" "n < length ls"
        by auto
      from Cons.IH [OF this] show ?thesis using True Suc ps by simp
    next
      case False
      with Cons.prems Suc have "length ps = length (filter visability ls)" "n < length ls"
        by auto
      from Cons.IH [OF this] show ?thesis using False Suc by simp
    qed
  qed
qed

lemma stackLayout_hidden:
  "i < length layers \<Longrightarrow> l_hidden (stackLayout ch layers ! i) = l_hidden (layers ! i)"
  by (simp add: stackLayout_nth prepareValues_fields)

lemma stackLayout_name:
  "i < length layers \<Longrightarrow> l_name (stackLayout ch layers ! i) = Some (layer_name (layers ! i) i)"
  by (simp add: stackLayout_nth prepareValues_fields)

lemma filter_take_length_less:
  "i < length st \<Longrightarrow> P (st ! i) \<Longrightarrow> length (filter P (take i st)) < length (filter P st)"
proof -
  assume i: "i < length st" and P: "P (st ! i)"
  have "st = take i st @ st ! i # drop (Suc i) st"
    using i by (simp add: id_take_nth_drop)
  then have "filter P st = filter P (take i st) @ st ! i # filter P (drop (Suc i) st)"
    using P by (metis filter.simps(2) filter_append)
  then show ?thesis by simp
qed

lemma filter_take_nth:
  "i < length st \<Longrightarrow> P (st ! i) \<Longrightarrow> filter P st ! length (filter P (take i st)) = st ! i"
proof -
  assume i: "i < length st" and P: "P (st ! i)"
  have "st = take i st @ st ! i # drop (Suc i) st"
    using i by (simp add: id_take_nth_drop)
  then have "filter P st = filter P (take i st) @ st ! i # filter P (drop (Suc i) st)"
    using P by (metis filter.simps(2) filter_append)
  then show ?thesis by (simp add: nth_append)
qed

lemma data_stack_nth:
  assumes i: "i < length st"
  shows "snd (data ch st) ! i =
     (if visability (st ! i)
      then stackLayout ch (filter visability st) ! length (filter visability (take i st))
      else st ! i)"
proof (cases "filter visability st = []")
  case True
  then have "\<not> visability (st ! i)"
    using i by (metis filter_empty_conv nth_mem)
  then show ?thesis using True by (simp add: data_empty)
next
  case False
  then show ?thesis
    using i by (simp add: data_nonempty write_back_nth stackLayout_length)
qed

subsection \<open>Layers that differ in the hidden flag only\<close>

lemma value_at_map_hidden: "value_at (map (pt_hidden_update h) vs) k = value_at vs k"
  by (induction vs) (auto simp: value_at_def)

lemma prepared_points_rel:
  fixes l l' :: "('k::linorder, 'd) layer"
  assumes a: "l_accessor l' = l_accessor l"
    and hid: "l_hidden l' = Some True \<longleftrightarrow> l_hidden l = Some True"
    and h: "h (l_hidden l') = h (l_hidden l)"
  shows "map (pt_hidden_update h) (filter (domainFilter ch) (map (\<lambda>(i, d).
               \<lparr>pt_x = keyAccessor ch d i,
                pt_y = (if l_hidden l' = Some True then None else Some (valAccessor ch l' d i)),
                pt_data = d, pt_layer = nm, pt_hidden = l_hidden l',
                pt_y0 = None\<rparr>) xs))
       = map (pt_hidden_update h) (filter (domainFilter ch) (map (\<lambda>(i, d).
               \<lparr>pt_x = keyAccessor ch d i,
                pt_y = (if l_hidden l = Some True then None else Some (valAccessor ch l d i)),
                pt_data = d, pt_layer = nm, pt_hidden = l_hidden l,
                pt_y0 = None\<rparr>) xs))"
proof (induction xs)
  case Nil
  then show ?case by simp
next
  case (Cons x xs)
  obtain i d where x: "x = (i, d)" by (cases x)
  let ?p' = "\<lparr>pt_x = keyAccessor ch d i,
                pt_y = (if l_hidden l' = Some True then None else Some (valAccessor ch l' d i)),
                pt_data = d, pt_layer = nm, pt_hidden = l_hidden l',
                pt_y0 = None\<rparr>"
  let ?p = "\<lparr>pt_x = keyAccessor ch d i,
                pt_y = (if l_hidden l = Some True then None else Some (valAccessor ch l d i)),
                pt_data = d, pt_layer = nm, pt_hidden = l_hidden l,
                pt_y0 = None\<rparr>"
  have df: "domainFilter ch ?p' = domainFilter ch ?p"
    by (rule domainFilter_key) simp
  have va: "valAccessor ch l' = valAccessor ch l"
    using a by (simp add: valAccessor_def)
  have up: "pt_hidden_update h ?p' = pt_hidden_update h ?p"
    using hid h va by simp
  show ?case
    using Cons.IH df up unfolding x by simp
qed

lemma prepareValues_rel:
  fixes l l' :: "('k::linorder, 'd) layer"
  assumes g: "l_group l' = l_group l"
    and a: "l_accessor l' = l_accessor l"
    and nm: "layer_name l' i = layer_name l i"
    and hid: "l_hidden l' = Some True \<longleftrightarrow> l_hidden l = Some True"
    and h: "h (l_hidden l') = h (l_hidden l)"
  shows "map (pt_hidden_update h) (the_values (prepareValues ch l' i))
       = map (pt_hidden_update h) (the_values (prepareValues ch l i))"
  unfolding the_values_prepareValues g nm
  by (rule prepared_points_rel [OF a hid h])

lemma prepareValues_rel_value_at:
  fixes l l' :: "('k::linorder, 'd) layer"
  assumes g: "l_group l' = l_group l"
    and a: "l_accessor l' = l_accessor l"
    and nm: "layer_name l' i = layer_name l i"
    and hid: "l_hidden l' = Some True \<longleftrightarrow> l_hidden l = Some True"
  shows "value_at (the_values (prepareValues ch l' i)) k
       = value_at (the_values (prepareValues ch l i)) k"
proof -
  have "map (pt_hidden_update (\<lambda>_. None)) (the_values (prepareValues ch l' i))
       = map (pt_hidden_update (\<lambda>_. None)) (the_values (prepareValues ch l i))"
    by (rule prepareValues_rel [OF g a nm hid]) simp
  then show ?thesis
    by (metis value_at_map_hidden)
qed

lemma flip_stack_nth:
  assumes "i < length layers"
  shows "flipXY (stackLayout ch layers) ! i =
     \<lparr>o_group = l_group (layers ! i), o_name = Some (layer_name (layers ! i) i),
      o_accessor = l_accessor (layers ! i),
      o_values = map (\<lambda>q. flip_point (q\<lparr>pt_y0 := Some (\<Sum>j<i.
              value_at (the_values (prepareValues ch (layers ! j) j)) (pt_x q))\<rparr>))
         (the_values (prepareValues ch (layers ! i) i))\<rparr>"
  using assms
  by (simp add: flipXY_def stackLayout_length stackLayout_nth prepareValues_fields the_values_def
      comp_def)

lemma map_hidden_flip:
  "map (fp_hidden_update h) (map (\<lambda>q. flip_point (q\<lparr>pt_y0 := Some (S (pt_x q))\<rparr>)) vs)
   = map (\<lambda>q. flip_point (q\<lparr>pt_y0 := Some (S (pt_x q))\<rparr>)) (map (pt_hidden_update h) vs)"
  by (simp add: flip_point_def)

lemma map_hidden_length: "length (map_hidden h out) = length out"
  by (simp add: map_hidden_def)

lemma flipXY_length: "length (flipXY ls) = length ls"
  by (simp add: flipXY_def)

lemma stacked_output_rel:
  fixes ls ls' :: "('k::linorder, 'd) layer list"
  assumes len: "length ls' = length ls"
    and rel: "\<And>i. i < length ls \<Longrightarrow>
        l_group (ls' ! i) = l_group (ls ! i) \<and> l_accessor (ls' ! i) = l_accessor (ls ! i)
        \<and> layer_name (ls' ! i) i = layer_name (ls ! i) i
        \<and> (l_hidden (ls' ! i) = Some True \<longleftrightarrow> l_hidden (ls ! i) = Some True)
        \<and> h (l_hidden (ls' ! i)) = h (l_hidden (ls ! i))"
  shows "map_hidden h (flipXY (stackLayout ch ls')) = map_hidden h (flipXY (stackLayout ch ls))"
proof (rule nth_equalityI)
  show "length (map_hidden h (flipXY (stackLayout ch ls')))
        = length (map_hidden h (flipXY (stackLayout ch ls)))"
    by (simp add: map_hidden_length flipXY_length stackLayout_length len)
next
  fix i assume "i < length (map_hidden h (flipXY (stackLayout ch ls')))"
  then have i: "i < length ls" and i': "i < length ls'"
    by (simp_all add: map_hidden_length flipXY_length stackLayout_length len)
  let ?S = "\<lambda>k. \<Sum>j<i. value_at (the_values (prepareValues ch (ls ! j) j)) k"
  let ?S' = "\<lambda>k. \<Sum>j<i. value_at (the_values (prepareValues ch (ls' ! j) j)) k"
  have S: "?S' k = ?S k" for k
  proof -
    show "?S' k = ?S k"
    proof (rule sum.cong)
      fix j assume "j \<in> {..<i}"
      then have "j < length ls" using i by simp
      from rel [OF this]
      show "value_at (the_values (prepareValues ch (ls' ! j) j)) k
            = value_at (the_values (prepareValues ch (ls ! j) j)) k"
        by (intro prepareValues_rel_value_at) simp_all
    qed simp
  qed
  have V: "map (pt_hidden_update h) (the_values (prepareValues ch (ls' ! i) i))
         = map (pt_hidden_update h) (the_values (prepareValues ch (ls ! i) i))"
    using rel [OF i] by (intro prepareValues_rel) simp_all
  have F: "map_hidden h (flipXY (stackLayout ch xs)) ! i =
      \<lparr>o_group = l_group (xs ! i), o_name = Some (layer_name (xs ! i) i),
       o_accessor = l_accessor (xs ! i),
       o_values = map (\<lambda>q. flip_point (q\<lparr>pt_y0 := Some ((\<lambda>k. \<Sum>j<i.
              value_at (the_values (prepareValues ch (xs ! j) j)) k) (pt_x q))\<rparr>))
         (map (pt_hidden_update h) (the_values (prepareValues ch (xs ! i) i)))\<rparr>"
    if "i < length xs" for xs :: "('k, 'd) layer list"
    using that
    by (simp add: map_hidden_def flipXY_length stackLayout_length flip_stack_nth flip_point_def)
  show "map_hidden h (flipXY (stackLayout ch ls')) ! i
        = map_hidden h (flipXY (stackLayout ch ls)) ! i"
    unfolding F [OF i] F [OF i'] V using rel [OF i] by (simp add: S)
qed

lemma map_hidden_id: "map_hidden (\<lambda>x. x) out = out"
  by (simp add: map_hidden_def map_idI)

subsection \<open>Hiding and showing a layer\<close>

lemma string_of_nat_nonempty: "string_of_nat n \<noteq> []"
  by (subst string_of_nat.simps) simp

lemma layer_name_nonempty: "layer_name l i \<noteq> []"
  by (simp add: layer_name_def string_of_nat_nonempty split: option.splits)

lemma layer_name_named: "l_name l = Some (layer_name l0 i) \<Longrightarrow> layer_name l i = layer_name l0 i"
  using layer_name_nonempty [of l0 i] by (simp add: layer_name_def [of l])

lemma write_back_filter:
  "length ps = length (filter visability st) \<Longrightarrow> \<forall>p \<in> set ps. visability p \<Longrightarrow>
   filter visability (write_back st ps) = ps"
proof (induction st arbitrary: ps)
  case Nil
  then show ?case by simp
next
  case (Cons l ls)
  show ?case
  proof (cases "visability l")
    case True
    with Cons.prems obtain q qs where ps: "ps = q # qs" by (cases ps) auto
    with Cons.prems True have "length qs = length (filter visability ls)" "\<forall>p \<in> set qs. visability p"
      by auto
    from Cons.IH [OF this] show ?thesis using True ps Cons.prems by simp
  next
    case False
    with Cons.prems have "length ps = length (filter visability ls)" by simp
    from Cons.IH [OF this Cons.prems(2)] show ?thesis using False by simp
  qed
qed

lemma stackLayout_visible:
  assumes "\<forall>l \<in> set layers. visability l"
  shows "\<forall>p \<in> set (stackLayout ch layers). visability p"
proof
  fix p assume "p \<in> set (stackLayout ch layers)"
  then obtain i where i: "i < length layers" and p: "p = stackLayout ch layers ! i"
    by (metis in_set_conv_nth stackLayout_length)
  then have "l_hidden p = l_hidden (layers ! i)"
    by (simp add: stackLayout_hidden)
  moreover have "visability (layers ! i)"
    using assms i by simp
  ultimately show "visability p" by (simp add: visability_def)
qed

lemma data_visible_layers:
  "filter visability st \<noteq> [] \<Longrightarrow>
   filter visability (snd (data ch st)) = stackLayout ch (filter visability st)"
proof -
  assume ne: "filter visability st \<noteq> []"
  have "\<forall>p \<in> set (stackLayout ch (filter visability st)). visability p"
    by (rule stackLayout_visible) simp
  then have "filter visability (write_back st (stackLayout ch (filter visability st)))
             = stackLayout ch (filter visability st)"
    by (intro write_back_filter) (simp_all add: stackLayout_length)
  then show ?thesis using ne by (simp add: data_nonempty)
qed

lemma data_idempotent: "fst (data ch (snd (data ch st))) = fst (data ch st)"
proof (cases "filter visability st = []")
  case True
  then show ?thesis by (simp add: data_empty)
next
  case False
  let ?vis = "filter visability st"
  let ?sl = "stackLayout ch ?vis"
  have ne: "?sl \<noteq> []"
    using False by (metis length_0_conv stackLayout_length)
  have "map_hidden (\<lambda>x. x) (flipXY (stackLayout ch ?sl)) = map_hidden (\<lambda>x. x) (flipXY ?sl)"
  proof (rule stacked_output_rel)
    show "length ?sl = length ?vis" by (rule stackLayout_length)
  next
    fix i assume i: "i < length ?vis"
    then show "l_group (?sl ! i) = l_group (?vis ! i) \<and> l_accessor (?sl ! i) = l_accessor (?vis ! i)
        \<and> layer_name (?sl ! i) i = layer_name (?vis ! i) i
        \<and> (l_hidden (?sl ! i) = Some True \<longleftrightarrow> l_hidden (?vis ! i) = Some True)
        \<and> l_hidden (?sl ! i) = l_hidden (?vis ! i)"
      by (simp add: stackLayout_nth prepareValues_fields layer_name_named)
  qed
  then have "flipXY (stackLayout ch ?sl) = flipXY ?sl"
    by (simp only: map_hidden_id)
  moreover have "fst (data ch (snd (data ch st))) = flipXY (stackLayout ch ?sl)"
    using ne by (simp add: data_nonempty [of "snd (data ch st)"] data_visible_layers [OF False])
  ultimately show ?thesis
    using False by (simp add: data_nonempty)
qed

lemma same_layer_filter:
  "list_all2 (same_layer h) st' st \<Longrightarrow>
   list_all2 (same_layer h) (filter visability st') (filter visability st)"
  by (induction rule: list_all2_induct) (auto simp: same_layer_def visability_def)

lemma data_same_layers:
  fixes st st' :: "('k::linorder, 'd) layer list"
  assumes "list_all2 (same_layer h) st' st"
  shows "map_hidden h (fst (data ch st')) = map_hidden h (fst (data ch st))"
proof -
  let ?vis = "filter visability st" and ?vis' = "filter visability st'"
  have rel: "list_all2 (same_layer h) ?vis' ?vis"
    using assms by (rule same_layer_filter)
  then have len: "length ?vis' = length ?vis"
    by (rule list_all2_lengthD)
  show ?thesis
  proof (cases "?vis = []")
    case True
    with len have "?vis' = []" by simp
    with True show ?thesis by (simp add: data_empty)
  next
    case False
    with len have ne': "?vis' \<noteq> []" by auto
    have "map_hidden h (flipXY (stackLayout ch ?vis')) = map_hidden h (flipXY (stackLayout ch ?vis))"
    proof (rule stacked_output_rel [OF len])
      fix i assume "i < length ?vis"
      with rel have "same_layer h (?vis' ! i) (?vis ! i)"
        by (simp add: list_all2_nthD2)
      then show "l_group (?vis' ! i) = l_group (?vis ! i) \<and> l_accessor (?vis' ! i) = l_accessor (?vis ! i)
        \<and> layer_name (?vis' ! i) i = layer_name (?vis ! i) i
        \<and> (l_hidden (?vis' ! i) = Some True \<longleftrightarrow> l_hidden (?vis ! i) = Some True)
        \<and> h (l_hidden (?vis' ! i)) = h (l_hidden (?vis ! i))"
        by (simp add: same_layer_def layer_name_def)
    qed
    then show ?thesis
      using False ne' by (simp add: data_nonempty)
  qed
qed

lemma index_of_update_names:
  "map l_name (st[i := (st ! i)\<lparr>l_hidden := v\<rparr>]) = map l_name st"
proof (cases "i < length st")
  case True
  then show ?thesis
    by (intro nth_equalityI) (auto simp: nth_list_update)
next
  case False
  then show ?thesis by (simp add: list_update_beyond)
qed

lemma hide_then_show:
  "showStack n (hideStack n st) =
     (case findLayerByName n st of
        None \<Rightarrow> st
      | Some i \<Rightarrow> st[i := (st ! i)\<lparr>l_hidden := Some False\<rparr>])"
proof (cases "findLayerByName n st")
  case None
  then show ?thesis by (simp add: hideStack_def showStack_def)
next
  case (Some i)
  then have i: "i < length st"
    by (simp add: findLayerByName_def) (metis index_of_Some length_map)
  have h: "hideStack n st = st[i := (st ! i)\<lparr>l_hidden := Some True\<rparr>]"
    using Some by (simp add: hideStack_def)
  have "findLayerByName n (hideStack n st) = Some i"
    using Some unfolding h findLayerByName_def index_of_update_names .
  then show ?thesis
    using Some i by (simp add: showStack_def h)
qed

lemma data_stack_length: "length (snd (data ch st)) = length st"
  by (cases "filter visability st = []") (simp_all add: data_empty data_nonempty write_back_length)

text \<open>
  C7, as amended: let the data function have produced its output, and call \<open>hideStack(n)\<close>
  and then \<open>showStack(n)\<close>. If no layer is named \<open>n\<close>, or the layer found has the hidden
  flag \<open>false\<close>, the next data computation returns exactly the same output. If the layer
  found is visible (its flag is \<open>false\<close> or was never set), the output is the same up to
  the \<open>hidden\<close> field of the points, which reads \<open>false\<close> where it was \<open>undefined\<close>.
\<close>

theorem hide_show_restores_output:
  fixes st :: "('k::linorder, 'd) layer list"
  shows "((case findLayerByName n (snd (data ch st)) of
             None \<Rightarrow> True
           | Some i \<Rightarrow> l_hidden (snd (data ch st) ! i) = Some False)
          \<longrightarrow> after_hide_show ch n st = fst (data ch st))
       \<and> ((case findLayerByName n (snd (data ch st)) of
             None \<Rightarrow> True
           | Some i \<Rightarrow> visability (snd (data ch st) ! i))
          \<longrightarrow> norm_hidden (after_hide_show ch n st) = norm_hidden (fst (data ch st)))"
proof -
  let ?st1 = "snd (data ch st)"
  let ?st2 = "showStack n (hideStack n ?st1)"
  have idem: "fst (data ch ?st1) = fst (data ch st)"
    by (rule data_idempotent)
  show ?thesis
  proof (cases "findLayerByName n ?st1")
    case None
    then have "?st2 = ?st1" by (simp add: hide_then_show)
    then show ?thesis using None idem by (simp add: after_hide_show_def)
  next
    case (Some i)
    then have i: "i < length ?st1"
      by (simp add: findLayerByName_def) (metis index_of_Some length_map)
    have st2: "?st2 = ?st1[i := (?st1 ! i)\<lparr>l_hidden := Some False\<rparr>]"
      using Some by (simp add: hide_then_show)
    have exact: "after_hide_show ch n st = fst (data ch st)" if "l_hidden (?st1 ! i) = Some False"
    proof -
      have "(?st1 ! i)\<lparr>l_hidden := Some False\<rparr> = ?st1 ! i"
        using that by simp
      then have "?st2 = ?st1" unfolding st2 by simp
      then show ?thesis using idem by (simp add: after_hide_show_def)
    qed
    have norm: "norm_hidden (after_hide_show ch n st) = norm_hidden (fst (data ch st))"
      if vis: "visability (?st1 ! i)"
    proof -
      have "list_all2 (same_layer (\<lambda>h. Some (h = Some True))) ?st2 ?st1"
        unfolding st2 using i vis
        by (auto simp: list_all2_conv_all_nth nth_list_update same_layer_def visability_def)
      then have "norm_hidden (fst (data ch ?st2)) = norm_hidden (fst (data ch ?st1))"
        unfolding norm_hidden_def by (rule data_same_layers)
      then show ?thesis using idem by (simp add: after_hide_show_def)
    qed
    show ?thesis using Some exact norm by simp
  qed
qed

lemma ex_hidden_stack_eq:
  "ex_hidden_stack = [ex_layer [(1, 100)] (Some ''c'') (Some True), ex_layer [(1, 2), (2, 4)] None None]"
  by (simp add: ex_hidden_stack_def stack_def hideStack_def findLayerByName_def ex_layer_def)

lemma ex_hidden_data:
  "snd (data ex_chart ex_hidden_stack) =
     [ex_layer [(1, 100)] (Some ''c'') (Some True),
      \<lparr>l_group = [(1, 2), (2, 4)], l_name = Some ''0'', l_accessor = None, l_hidden = None,
       l_values = Some [\<lparr>pt_x = 1, pt_y = Some 2, pt_data = (1, 2), pt_layer = ''0'', pt_hidden = None, pt_y0 = Some 0\<rparr>,
                        \<lparr>pt_x = 2, pt_y = Some 4, pt_data = (2, 4), pt_layer = ''0'', pt_hidden = None, pt_y0 = Some 0\<rparr>]\<rparr>]"
  by (simp add: ex_hidden_stack_eq stack_defs ex_chart_def ex_layer_def Let_def)

text \<open>
  C7 as stated fails for a layer that is hidden already: \<open>hideStack\<close> changes nothing and
  \<open>showStack\<close> makes the layer visible, so the output gains a layer.
\<close>

theorem hide_show_hidden_layer_counterexample:
  "length (fst (data ex_chart ex_hidden_stack)) = 1
   \<and> length (after_hide_show ex_chart ''c'' ex_hidden_stack) = 2
   \<and> after_hide_show ex_chart ''c'' ex_hidden_stack \<noteq> fst (data ex_chart ex_hidden_stack)"
proof -
  have a: "length (fst (data ex_chart ex_hidden_stack)) = 1"
    by (simp add: data_length ex_hidden_stack_eq ex_layer_def visability_def)
  have "showStack ''c'' (hideStack ''c'' (snd (data ex_chart ex_hidden_stack)))
        = (snd (data ex_chart ex_hidden_stack))[0 := (snd (data ex_chart ex_hidden_stack) ! 0)\<lparr>l_hidden := Some False\<rparr>]"
    by (simp add: hide_then_show findLayerByName_def ex_hidden_data ex_layer_def)
  then have b: "length (after_hide_show ex_chart ''c'' ex_hidden_stack) = 2"
    by (simp add: after_hide_show_def data_length ex_hidden_data ex_layer_def visability_def)
  from a b show ?thesis by auto
qed

theorem hide_show_restores_output_witness:
  "l_hidden (snd (data ex_chart ex_hidden_stack) ! 1) = None
   \<and> visability (snd (data ex_chart ex_hidden_stack) ! 1)
   \<and> findLayerByName ''0'' (snd (data ex_chart ex_hidden_stack)) = Some 1
   \<and> norm_hidden (after_hide_show ex_chart ''0'' ex_hidden_stack)
       = norm_hidden (fst (data ex_chart ex_hidden_stack))
   \<and> findLayerByName ''zz'' (snd (data ex_chart ex_hidden_stack)) = None
   \<and> after_hide_show ex_chart ''zz'' ex_hidden_stack = fst (data ex_chart ex_hidden_stack)"
proof -
  have f: "findLayerByName ''0'' (snd (data ex_chart ex_hidden_stack)) = Some 1"
    by (simp add: findLayerByName_def ex_hidden_data ex_layer_def)
  have g: "findLayerByName ''zz'' (snd (data ex_chart ex_hidden_stack)) = None"
    by (simp add: findLayerByName_def ex_hidden_data ex_layer_def)
  have v: "visability (snd (data ex_chart ex_hidden_stack) ! 1)"
    "l_hidden (snd (data ex_chart ex_hidden_stack) ! 1) = None"
    by (simp_all add: ex_hidden_data visability_def)
  from hide_show_restores_output [where n = "''0''" and ch = ex_chart and st = ex_hidden_stack]
    hide_show_restores_output [where n = "''zz''" and ch = ex_chart and st = ex_hidden_stack] f g v
  show ?thesis by simp
qed

subsection \<open>Default layer names\<close>

lemma findLayerByName_named:
  assumes "i < length st" and "l_name (st ! i) = Some nm"
  shows "\<exists>j. findLayerByName nm st = Some j \<and> j < length st \<and> l_name (st ! j) = Some nm"
proof -
  have "Some nm \<in> set (map l_name st)"
    using assms by (metis length_map nth_map nth_mem)
  then obtain j where j: "index_of (map l_name st) (Some nm) = Some j"
    using index_of_None [of "map l_name st" "Some nm"] by (cases "index_of (map l_name st) (Some nm)") auto
  from index_of_Some [OF j] have "j < length st" "l_name (st ! j) = Some nm"
    by auto
  with j show ?thesis by (simp add: findLayerByName_def)
qed

text \<open>
  C9, as amended: an unnamed layer gets its name in the first data computation in which it
  is visible, and the name is the stringified index of the layer among the visible layers
  of that computation; it is the registration index when no earlier layer is hidden.
  \<open>findLayerByName\<close>, and so \<open>hideStack\<close> and \<open>showStack\<close>, then find a layer of
  that name.
\<close>

theorem default_layer_name_by_visible_index:
  fixes st :: "('k::linorder, 'd) layer list"
  assumes i: "i < length st"
    and vis: "visability (st ! i)"
    and unnamed: "l_name (st ! i) = None"
  shows "l_name (snd (data ch st) ! i)
           = Some (string_of_nat (length (filter visability (take i st))))
       \<and> ((\<forall>j<i. visability (st ! j)) \<longrightarrow> l_name (snd (data ch st) ! i) = Some (string_of_nat i))
       \<and> (\<exists>j. findLayerByName (string_of_nat (length (filter visability (take i st)))) (snd (data ch st)) = Some j
              \<and> l_name (snd (data ch st) ! j) = l_name (snd (data ch st) ! i))"
proof -
  let ?k = "length (filter visability (take i st))"
  have k: "?k < length (filter visability st)"
    using i vis by (rule filter_take_length_less)
  have nth: "filter visability st ! ?k = st ! i"
    using i vis by (rule filter_take_nth)
  have name: "l_name (snd (data ch st) ! i) = Some (string_of_nat ?k)"
    using i vis unnamed k nth
    by (simp add: data_stack_nth stackLayout_name layer_name_def)
  moreover have "?k = i" if "\<forall>j<i. visability (st ! j)"
  proof -
    have "filter visability (take i st) = take i st"
      using that i by (auto simp: filter_id_conv in_set_conv_nth)
    then show ?thesis using i by simp
  qed
  moreover have "\<exists>j. findLayerByName (string_of_nat ?k) (snd (data ch st)) = Some j
              \<and> l_name (snd (data ch st) ! j) = l_name (snd (data ch st) ! i)"
    using findLayerByName_named [of i "snd (data ch st)" "string_of_nat ?k"] i name
    by (auto simp: data_stack_length)
  ultimately show ?thesis by simp
qed

text \<open>
  C9 as stated fails when an earlier layer is hidden: the second registered layer is named
  \<open>0\<close>, not \<open>1\<close>.
\<close>

theorem default_layer_name_counterexample:
  "l_name (ex_hidden_stack ! 1) = None
   \<and> l_name (snd (data ex_chart ex_hidden_stack) ! 1) = Some ''0''
   \<and> l_name (snd (data ex_chart ex_hidden_stack) ! 1) \<noteq> Some (string_of_nat 1)"
  by (simp add: ex_hidden_data) (simp add: ex_hidden_stack_eq ex_layer_def)

theorem default_layer_name_by_visible_index_witness:
  "1 < length ex_hidden_stack \<and> visability (ex_hidden_stack ! 1) \<and> l_name (ex_hidden_stack ! 1) = None
   \<and> l_name (snd (data ex_chart ex_hidden_stack) ! 1)
        = Some (string_of_nat (length (filter visability (take 1 ex_hidden_stack))))
   \<and> 1 < length ex_stack \<and> visability (ex_stack ! 1) \<and> l_name (ex_stack ! 1) = None
   \<and> visability (ex_stack ! 0)
   \<and> l_name (snd (data ex_chart ex_stack) ! 1) = Some (string_of_nat 1)"
proof -
  have a: "1 < length ex_hidden_stack" "visability (ex_hidden_stack ! 1)"
    "l_name (ex_hidden_stack ! 1) = None"
    by (simp_all add: ex_hidden_stack_eq ex_layer_def visability_def)
  have b: "1 < length ex_stack" "visability (ex_stack ! 1)" "l_name (ex_stack ! 1) = None"
    "visability (ex_stack ! 0)"
    by (simp_all add: ex_stack_def ex_layer_def visability_def)
  then have c: "\<forall>j<1. visability (ex_stack ! j)" by simp
  from default_layer_name_by_visible_index [OF a, of ex_chart]
    default_layer_name_by_visible_index [OF b(1-3), of ex_chart] a b c
  show ?thesis by blast
qed

subsection \<open>The domain filter\<close>

lemma domainFilter_iff:
  "domainFilter ch p \<longleftrightarrow>
     (case y_scale ch of
        None \<Rightarrow> True
      | Some yd \<Rightarrow> isOrdinal ch \<or> elasticX ch \<or> (yd \<noteq> [] \<and> hd yd \<le> pt_x p \<and> pt_x p \<le> last yd))"
  by (auto simp: domainFilter_def split: option.splits list.splits)

text \<open>
  C5: the domain filter compares keys with the domain of the category scale \<open>_chart.y()\<close>
  but tests the elasticity of the other axis. With an elastic category axis and a fixed
  value axis a point outside the domain is dropped; with a fixed category axis and an
  elastic value axis it is kept.
\<close>

theorem domainFilter_tests_elasticX:
  "y_scale ex_elastic_chart = Some [1, 2] \<and> \<not> isOrdinal ex_elastic_chart
   \<and> elasticY ex_elastic_chart \<and> \<not> elasticX ex_elastic_chart
   \<and> pt_x ex_raw_point = 3 \<and> \<not> domainFilter ex_elastic_chart ex_raw_point
   \<and> \<not> elasticY (ex_chart\<lparr>elasticX := True\<rparr>) \<and> domainFilter (ex_chart\<lparr>elasticX := True\<rparr>) ex_raw_point"
  by (simp add: ex_elastic_chart_def ex_chart_def ex_raw_point_def domainFilter_def)

section \<open>Properties of the bar chart\<close>

lemma clamp_cases:
  "h = PInf \<or> js_isNaN h \<or> js_lt h MIN_BAR_HEIGHT \<or> (\<exists>b. h = Fin b \<and> 1 \<le> b)"
  by (cases h) (auto simp: MIN_BAR_HEIGHT_def)

lemma calculateBarHeight_floor:
  assumes "barHeight c = None"
  shows "\<exists>b. barHeight (calculateBarHeight c) = Some (Fin b) \<and> 1 \<le> b"
  using assms clamp_cases [of "raw_bar_height c"]
  by (auto simp: calculateBarHeight_def Let_def MIN_BAR_HEIGHT_def)

lemma calculateBarHeight_min:
  assumes "barHeight c = None"
    and "raw_bar_height c = PInf \<or> raw_bar_height c = NInf \<or> raw_bar_height c = NaN
         \<or> (\<exists>x. raw_bar_height c = Fin x \<and> x < 1)"
  shows "barHeight (calculateBarHeight c) = Some (Fin 1)"
  using assms by (auto simp: calculateBarHeight_def Let_def MIN_BAR_HEIGHT_def)

lemma div_zero_units: "js_floor (js_div a (Fin 0)) \<in> {PInf, NInf, NaN}"
  by (cases a) auto

lemma raw_no_units:
  assumes "yUnitCount c = Fin 0" and "\<not> (bc_isOrdinal c \<and> gap c = None)"
  shows "raw_bar_height c \<in> {PInf, NInf, NaN}"
  using assms div_zero_units
  by (auto simp: raw_bar_height_def Let_def split: option.splits)

lemma padded_no_height:
  "js_floor (js_div (js_div (Fin 0) p) (Fin n)) = NaN
   \<or> js_floor (js_div (js_div (Fin 0) p) (Fin n)) = Fin 0"
  by (cases p) auto

lemma gap_no_height:
  assumes "0 < g" and "n = 0 \<or> 1 \<le> n"
  shows "js_floor (js_div (js_sub (Fin 0) (js_mul (js_sub (Fin n) (Fin 1)) (Fin g))) (Fin n)) = PInf
       \<or> (\<exists>x. js_floor (js_div (js_sub (Fin 0) (js_mul (js_sub (Fin n) (Fin 1)) (Fin g))) (Fin n)) = Fin x \<and> x < 1)"
proof (cases "n = 0")
  case True
  then show ?thesis using assms by (simp add: js_sub_def)
next
  case False
  with assms have n: "1 \<le> n" by simp
  then have "(n - 1) * g \<ge> 0" using assms by simp
  then have "- ((n - 1) * g) / n \<le> 0"
    using n by (simp add: divide_le_0_iff)
  then have "\<lfloor>- ((n - 1) * g) / n\<rfloor> \<le> 0"
    by (simp add: floor_le_zero)
  then have "real_of_int \<lfloor>- ((n - 1) * g) / n\<rfloor> < 1"
    by linarith
  then show ?thesis using False by (simp add: js_sub_def)
qed

lemma raw_no_height:
  assumes h: "yAxisHeight c = Fin 0"
    and ord: "\<not> (bc_isOrdinal c \<and> gap c = None)"
    and n: "yUnitCount c = Fin n" "n = 0 \<or> 1 \<le> n"
    and g: "gap c = None \<or> (\<exists>g. gap c = Some (Fin g) \<and> 0 \<le> g)"
  shows "raw_bar_height c = PInf \<or> raw_bar_height c = NInf \<or> raw_bar_height c = NaN
         \<or> (\<exists>x. raw_bar_height c = Fin x \<and> x < 1)"
proof (cases "gap c")
  case None
  with ord have "\<not> bc_isOrdinal c" by simp
  with None h n padded_no_height [of "js_add (Fin 1) (barPadding c)" n] show ?thesis
    by (auto simp: raw_bar_height_def Let_def)
next
  case (Some gv)
  with g obtain g0 where g0: "gv = Fin g0" "0 \<le> g0" by auto
  show ?thesis
  proof (cases "g0 = 0")
    case True
    with Some g0 h n padded_no_height [of "js_add (Fin 1) (barPadding c)" n] show ?thesis
      by (auto simp: raw_bar_height_def Let_def)
  next
    case False
    with g0 have "0 < g0" by simp
    from gap_no_height [OF this n(2)] Some g0 False h n show ?thesis
      by (auto simp: raw_bar_height_def Let_def)
  qed
qed

text \<open>
  C6, as amended: whatever the unit count, gap, padding, band width and axis height are
  (NaN and the infinities included), the bar height that \<open>calculateBarHeight\<close> computes is
  a finite number not below 1. It is exactly 1 when the unit count is 0, unless the chart
  is ordinal with no gap set (then the height is the floored band width of the scale and
  the unit count is not read). It is exactly 1 when the axis height is 0, the gap is
  undefined or not negative and the unit count is 0 or at least 1, again unless the chart
  is ordinal with no gap set.
\<close>

theorem bar_height_floor:
  assumes undef: "barHeight c = None"
  shows "(\<exists>b. barHeight (calculateBarHeight c) = Some (Fin b) \<and> 1 \<le> b)
       \<and> (yUnitCount c = Fin 0 \<and> \<not> (bc_isOrdinal c \<and> gap c = None)
            \<longrightarrow> barHeight (calculateBarHeight c) = Some (Fin 1))
       \<and> (yAxisHeight c = Fin 0 \<and> \<not> (bc_isOrdinal c \<and> gap c = None)
            \<and> (\<exists>n. yUnitCount c = Fin n \<and> (n = 0 \<or> 1 \<le> n))
            \<and> (gap c = None \<or> (\<exists>g. gap c = Some (Fin g) \<and> 0 \<le> g))
            \<longrightarrow> barHeight (calculateBarHeight c) = Some (Fin 1))"
proof (intro conjI impI)
  show "\<exists>b. barHeight (calculateBarHeight c) = Some (Fin b) \<and> 1 \<le> b"
    using undef by (rule calculateBarHeight_floor)
next
  assume "yUnitCount c = Fin 0 \<and> \<not> (bc_isOrdinal c \<and> gap c = None)"
  then have "raw_bar_height c \<in> {PInf, NInf, NaN}"
    by (intro raw_no_units) simp_all
  then show "barHeight (calculateBarHeight c) = Some (Fin 1)"
    by (intro calculateBarHeight_min [OF undef]) auto
next
  assume a: "yAxisHeight c = Fin 0 \<and> \<not> (bc_isOrdinal c \<and> gap c = None)
            \<and> (\<exists>n. yUnitCount c = Fin n \<and> (n = 0 \<or> 1 \<le> n))
            \<and> (gap c = None \<or> (\<exists>g. gap c = Some (Fin g) \<and> 0 \<le> g))"
  then obtain n where n: "yUnitCount c = Fin n" "n = 0 \<or> 1 \<le> n" by blast
  from a have "raw_bar_height c = PInf \<or> raw_bar_height c = NInf \<or> raw_bar_height c = NaN
         \<or> (\<exists>x. raw_bar_height c = Fin x \<and> x < 1)"
    by (intro raw_no_height [OF _ _ n]) simp_all
  then show "barHeight (calculateBarHeight c) = Some (Fin 1)"
    by (rule calculateBarHeight_min [OF undef])
qed

lemmas bar_defs = calculateBarHeight_def raw_bar_height_def MIN_BAR_HEIGHT_def
  DEFAULT_GAP_BETWEEN_BARS_def js_sub_def Let_def

text \<open>
  C6 as stated fails on an axis of height 0 with the default gap of 2 and half a unit:
  \<open>Math.floor((0 - (0.5 - 1) * 2) / 0.5)\<close> is 2.
\<close>

theorem bar_height_zero_axis_counterexample:
  "barHeight ex_bar = None \<and> yUnitCount ex_bar = Fin (1 / 2) \<and> yAxisHeight ex_bar = Fin 0
   \<and> barHeight (calculateBarHeight ex_bar) = Some (Fin 2)
   \<and> barHeight (calculateBarHeight ex_bar) \<noteq> Some (Fin 1)"
  by (simp add: ex_bar_def bar_defs)

theorem bar_height_floor_witness:
  "barHeight ex_bar_no_units = None \<and> yUnitCount ex_bar_no_units = Fin 0
   \<and> gap ex_bar_no_units = Some (Fin 2)
   \<and> barHeight (calculateBarHeight ex_bar_no_units) = Some (Fin 1)
   \<and> barHeight ex_bar_no_height = None \<and> yAxisHeight ex_bar_no_height = Fin 0
   \<and> yUnitCount ex_bar_no_height = Fin 10 \<and> gap ex_bar_no_height = Some (Fin 2)
   \<and> barHeight (calculateBarHeight ex_bar_no_height) = Some (Fin 1)"
proof -
  have a: "barHeight ex_bar_no_units = None" "yUnitCount ex_bar_no_units = Fin 0"
    "gap ex_bar_no_units = Some (Fin 2)" "\<not> bc_isOrdinal ex_bar_no_units"
    by (simp_all add: ex_bar_no_units_def ex_bar_def DEFAULT_GAP_BETWEEN_BARS_def)
  have b: "barHeight ex_bar_no_height = None" "yAxisHeight ex_bar_no_height = Fin 0"
    "yUnitCount ex_bar_no_height = Fin 10" "gap ex_bar_no_height = Some (Fin 2)"
    "\<not> bc_isOrdinal ex_bar_no_height"
    by (simp_all add: ex_bar_no_height_def ex_bar_def DEFAULT_GAP_BETWEEN_BARS_def)
  from bar_height_floor [OF a(1)] bar_height_floor [OF b(1)] a b
  show ?thesis by simp
qed

section \<open>Properties of the coordinate grid mixin\<close>

subsection \<open>What the drawing functions read and write\<close>

lemma rescale_fields [simp]:
  "yDomain (rescale c) = yDomain c" "yOriginalDomain (rescale c) = yOriginalDomain c"
  "yElasticity (rescale c) = yElasticity c" "chart_filter (rescale c) = chart_filter c"
  "yAxisMin (rescale c) = yAxisMin c" "yAxisMax (rescale c) = yAxisMax c"
  "brush (rescale c) = brush c" "brushOn (rescale c) = brushOn c"
  by (simp_all add: rescale_def)

lemma filter_set_fields [simp]:
  "yDomain (filter_set f c) = yDomain c" "yOriginalDomain (filter_set f c) = yOriginalDomain c"
  "yElasticity (filter_set f c) = yElasticity c" "chart_filter (filter_set f c) = f"
  "yAxisMin (filter_set f c) = yAxisMin c" "yAxisMax (filter_set f c) = yAxisMax c"
  "brush (filter_set f c) = f" "brushOn (filter_set f c) = brushOn c"
  by (simp_all add: filter_set_def base_filter_def Let_def split: option.splits)

lemma replaceFilter_fields [simp]:
  "yDomain (replaceFilter r c) = yDomain c" "yOriginalDomain (replaceFilter r c) = yOriginalDomain c"
  "yElasticity (replaceFilter r c) = yElasticity c" "chart_filter (replaceFilter r c) = Some r"
  "yAxisMin (replaceFilter r c) = yAxisMin c" "yAxisMax (replaceFilter r c) = yAxisMax c"
  "brush (replaceFilter r c) = Some r" "brushOn (replaceFilter r c) = brushOn c"
  by (simp_all add: replaceFilter_def)

lemma redrawBrush_fields [simp]:
  "yDomain (state_of (redrawBrush c)) = yDomain c"
  "yOriginalDomain (state_of (redrawBrush c)) = yOriginalDomain c"
  "yElasticity (state_of (redrawBrush c)) = yElasticity c"
  "chart_filter (state_of (redrawBrush c)) = chart_filter c"
  "brushOn (state_of (redrawBrush c)) = brushOn c"
  "returns (redrawBrush c) = (\<not> brushOn c)"
  by (simp_all add: redrawBrush_def)

lemma prepareYAxis_fields [simp]:
  "yDomain (prepareYAxis b c) = (if yElasticity c then (yAxisMin c, yAxisMax c) else yDomain c)"
  "yOriginalDomain (prepareYAxis b c) = yOriginalDomain c"
  "yElasticity (prepareYAxis b c) = yElasticity c" "chart_filter (prepareYAxis b c) = chart_filter c"
  "brush (prepareYAxis b c) = brush c" "brushOn (prepareYAxis b c) = brushOn c"
  by (simp_all add: prepareYAxis_def Let_def)

lemma redraw_cases:
  obtains c' where "redraw c = Threw c'" "brushOn c"
  | c' where "redraw c = Returned (c'\<lparr>resizing := False\<rparr>)" "\<not> brushOn c"
      "redrawBrush (prepareYAxis False c) = Returned c'"
  by (cases "redrawBrush (prepareYAxis False c)"; cases "brushOn c")
     (simp_all add: redraw_def doRedraw_def drawChart_def Let_def redrawBrush_def)

lemma redraw_fields [simp]:
  "yDomain (state_of (redraw c)) = (if yElasticity c then (yAxisMin c, yAxisMax c) else yDomain c)"
  "yOriginalDomain (state_of (redraw c)) = yOriginalDomain c"
  "yElasticity (state_of (redraw c)) = yElasticity c"
  "chart_filter (state_of (redraw c)) = chart_filter c"
  "returns (redraw c) = (\<not> brushOn c)"
  by (simp_all add: redraw_def doRedraw_def drawChart_def Let_def redrawBrush_def)

subsection \<open>The state that a zoom-handling pass leaves\<close>

lemma zoomHandler_state:
  fixes c rc
  defines "R \<equiv> redraw (rescale (replaceFilter (yDomain (zoom_constrained c rc))
                                   (zoom_constrained c rc)))"
  shows "yDomain (fst (state_of (zoomHandler c rc))) = yDomain (state_of R)"
    and "yOriginalDomain (fst (state_of (zoomHandler c rc))) = yOriginalDomain (state_of R)"
    and "chart_filter (fst (state_of (zoomHandler c rc))) = chart_filter (state_of R)"
proof -
  have Z: "zoomHandler c rc =
     (case R of
        Threw c3 \<Rightarrow> Threw (c3, rc, None)
      | Returned c3 \<Rightarrow>
          (let c4 = c3\<lparr>refocused := \<not> rangesEqual (Some (yDomain (zoom_constrained c rc)))
                                         (Some (yOriginalDomain c3))\<rparr>
           in case rc of
                None \<Rightarrow> Returned (c4, None, Some RedrawGroup)
              | Some r \<Rightarrow>
                  if \<not> rangesEqual (chart_filter c3) (chart_filter r)
                  then (case redraw (replaceFilter (yDomain (zoom_constrained c rc)) r) of
                          Threw r' \<Rightarrow> Threw (c3, Some r', None)
                        | Returned r' \<Rightarrow> Returned (c4, Some r', Some RedrawGroup))
                  else Returned (c4, Some r, Some RedrawGroup)))"
    unfolding zoomHandler_def Let_def R_def ..
  show "yDomain (fst (state_of (zoomHandler c rc))) = yDomain (state_of R)"
    unfolding Z by (cases R) (simp_all add: Let_def split: option.splits outcome.splits)
  show "yOriginalDomain (fst (state_of (zoomHandler c rc))) = yOriginalDomain (state_of R)"
    unfolding Z by (cases R) (simp_all add: Let_def split: option.splits outcome.splits)
  show "chart_filter (fst (state_of (zoomHandler c rc))) = chart_filter (state_of R)"
    unfolding Z by (cases R) (simp_all add: Let_def split: option.splits outcome.splits)
qed

lemma zoom_constrained_fields [simp]:
  "yDomain (zoom_constrained c rc) =
     (if zoomOutRestrict c
      then (case rc of
              None \<Rightarrow> constrainRange (yDomain c) (yOriginalDomain c)
            | Some r \<Rightarrow> constrainRange (constrainRange (yDomain c) (yOriginalDomain c)) (yDomain r))
      else yDomain c)"
  "yOriginalDomain (zoom_constrained c rc) = yOriginalDomain c"
  "yElasticity (zoom_constrained c rc) = yElasticity c"
  "yAxisMin (zoom_constrained c rc) = yAxisMin c" "yAxisMax (zoom_constrained c rc) = yAxisMax c"
  "brushOn (zoom_constrained c rc) = brushOn c"
  by (simp_all add: zoom_constrained_def Let_def split: option.splits)

lemma zoomHandler_domain:
  "yDomain (fst (state_of (zoomHandler c rc))) =
     (if yElasticity c then (yAxisMin c, yAxisMax c)
      else if zoomOutRestrict c
      then (case rc of
              None \<Rightarrow> constrainRange (yDomain c) (yOriginalDomain c)
            | Some r \<Rightarrow> constrainRange (constrainRange (yDomain c) (yOriginalDomain c)) (yDomain r))
      else yDomain c)"
  by (simp add: zoomHandler_state)


text \<open>
  With the brush on, the redraw of line 40 throws, so the pass does not complete; with
  the brush off on the chart and on the range chart it completes.
\<close>

lemma zoomHandler_throws: "brushOn c \<Longrightarrow> \<not> returns (zoomHandler c rc)"
proof -
  assume b: "brushOn c"
  obtain c' where "redraw (rescale (replaceFilter (yDomain (zoom_constrained c rc))
                     (zoom_constrained c rc))) = Threw c'"
    by (rule redraw_cases [of "rescale (replaceFilter (yDomain (zoom_constrained c rc))
                     (zoom_constrained c rc))"]) (use b in simp_all)
  thus ?thesis by (simp add: zoomHandler_def Let_def)
qed

lemma zoomHandler_completes:
  assumes "\<not> brushOn c" and "\<And>r. rc = Some r \<Longrightarrow> \<not> brushOn r"
  shows "returns (zoomHandler c rc)"
proof -
  obtain c' where R: "redraw (rescale (replaceFilter (yDomain (zoom_constrained c rc))
                     (zoom_constrained c rc))) = Returned c'"
    by (rule redraw_cases [of "rescale (replaceFilter (yDomain (zoom_constrained c rc))
                     (zoom_constrained c rc))"]) (use assms(1) in simp_all)
  show ?thesis
  proof (cases rc)
    case None
    thus ?thesis using R by (simp add: zoomHandler_def Let_def)
  next
    case (Some r)
    hence "\<not> brushOn r" using assms(2) by simp
    then obtain r' where "redraw (replaceFilter (yDomain (zoom_constrained c rc)) r) = Returned r'"
      by (rule_tac redraw_cases [of "replaceFilter (yDomain (zoom_constrained c rc)) r"]) simp_all
    thus ?thesis using R Some by (simp add: zoomHandler_def Let_def)
  qed
qed




subsection \<open>C2: the zoom constraint\<close>




subsection \<open>C3: a brush update\<close>

text \<open>
  The brush handler \<open>_brushing\<close> is wired to the brush only when the brush is on
  (lines 1006-1007). With the brush on it does not get as far as either trigger: the
  call of \<open>redrawBrush\<close> (line 1054) throws, no closure is scheduled and the filter is
  left as it was.
\<close>

lemma brushing_throws:
  assumes "brushOn c"
  shows "\<not> returns (brushing c)" and "snd (state_of (brushing c)) = None"
    and "chart_filter (fst (state_of (brushing c))) = chart_filter c"
  using assms
  by (simp_all add: brushing_def extendBrush_def redrawBrush_def Let_def split: option.splits)

text \<open>
  Called on a chart with the brush off and no rounding function, the handler returns
  the closure of the branch that C3 describes.
\<close>

lemma brushing_brush_off:
  assumes "\<not> brushOn c" and "round_fn c = None" and "brush c = Some (s, e)"
  shows "brushing c = Returned (c, Some (if e \<le> s then FilterNull else FilterReplace (s, e)))"
  using assms
  by (auto simp: brushing_def extendBrush_def redrawBrush_def brushIsEmpty_def brush_empty_def)

text \<open>
  C3 says that a brush update with the extent \<open>[s, e]\<close>, \<open>e > s\<close>, leaves \<open>[s, e]\<close> as the
  chart's active filter. The code does not do this: on a chart with the brush on (the
  default), the extent \<open>[2, 8]\<close> and no active filter, \<open>_brushing\<close> throws at the call of
  the undefined \<open>setBrushY\<close> inside \<open>redrawBrush\<close>, before the filter update is handed to
  \<open>dc.events.trigger\<close>: nothing is scheduled and the chart is left with no filter.
\<close>

theorem brushing_throws_before_trigger:
  "brushOn ex_brushed \<and> brush ex_brushed = Some (2, 8) \<and> round_fn ex_brushed = None
   \<and> chart_filter ex_brushed = None
   \<and> brushing ex_brushed = Threw (ex_brushed, None)
   \<and> chart_filter (fst (state_of (brushing ex_brushed))) \<noteq> Some (2, 8)"
  by (simp add: brushing_def extendBrush_def redrawBrush_def brush_empty_def ex_brushed_def
      ex_grid_def)

subsection \<open>C4: from the range chart to the focus chart\<close>

lemma focus_domain:
  "yDomain (fst (state_of (focus (Some f) c rc))) =
     (if yElasticity c then (yAxisMin c, yAxisMax c)
      else if zoomOutRestrict c
      then (case rc of
              None \<Rightarrow> constrainRange f (yOriginalDomain c)
            | Some r \<Rightarrow> constrainRange (constrainRange f (yOriginalDomain c)) (yDomain r))
      else f)"
  by (simp add: focus_def zoomHandler_domain split: option.splits)

lemma range_filtered_cleared:
  "chart_filter (range_chart s) = None \<Longrightarrow>
     range_filtered s
       = Returned (s\<lparr>focus_chart := (focus_chart s)\<lparr>yDomain := yOriginalDomain (focus_chart s)\<rparr>\<rparr>,
                   None)"
  by (simp add: range_filtered_def Let_def)

lemma range_filtered_focus:
  assumes "chart_filter (range_chart s) = Some f"
    and "\<not> rangesEqual (Some f) (chart_filter (focus_chart s))"
  shows "focus_chart (fst (state_of (range_filtered s)))
           = fst (state_of (focus (Some f) (focus_chart s) (Some (range_chart s))))"
    and "returns (range_filtered s)
           = returns (focus (Some f) (focus_chart s) (Some (range_chart s)))"
  using assms
  by (cases "focus (Some f) (focus_chart s) (Some (range_chart s))";
      simp add: range_filtered_def Let_def linked_of_def)+

lemma constrainRange_inside:
  "fst k \<le> fst r \<Longrightarrow> snd r \<le> snd k \<Longrightarrow> constrainRange r k = r"
  by (cases r) (simp add: constrainRange_def max_def min_def)

text \<open>
  C4 says that the focus chart's domain becomes the range chart's new filter \<open>[lo, hi]\<close>.
  With \<open>zoomOutRestrict\<close>, the default, \<open>focus\<close> runs the zoom handler, which constrains the
  domain: a range chart with the domain \<open>[0, 100]\<close> and the filter \<open>[10, 80]\<close>, linked to a
  focus chart with the original domain \<open>[0, 50]\<close> and no filter, leaves the focus chart
  with the domain \<open>[10, 50]\<close>. Both charts have the brush off, so the listener completes.
\<close>

theorem range_focus_clamped_counterexample:
  "chart_filter (range_chart ex_linked) = Some (10, 80)
   \<and> \<not> rangesEqual (Some (10, 80)) (chart_filter (focus_chart ex_linked))
   \<and> \<not> yElasticity (focus_chart ex_linked)
   \<and> yOriginalDomain (focus_chart ex_linked) = (0, 50)
   \<and> returns (range_filtered ex_linked)
   \<and> yDomain (focus_chart (fst (state_of (range_filtered ex_linked)))) = (10, 50)
   \<and> yDomain (focus_chart (fst (state_of (range_filtered ex_linked)))) \<noteq> (10, 80)"
proof -
  have a: "chart_filter (range_chart ex_linked) = Some (10, 80)"
    "\<not> rangesEqual (Some (10, 80)) (chart_filter (focus_chart ex_linked))"
    "\<not> yElasticity (focus_chart ex_linked)"
    "yOriginalDomain (focus_chart ex_linked) = (0, 50)"
    by (simp_all add: ex_linked_def ex_range_grid_def ex_focus_grid_def ex_grid_def)
  have r: "returns (range_filtered ex_linked)"
    unfolding range_filtered_focus(2) [OF a(1) a(2)] focus_def
    by (rule zoomHandler_completes)
       (simp_all add: ex_linked_def ex_range_grid_def ex_focus_grid_def ex_grid_def)
  have d: "yDomain (focus_chart (fst (state_of (range_filtered ex_linked)))) = (10, 50)"
    unfolding range_filtered_focus(1) [OF a(1) a(2)]
    by (simp add: focus_domain ex_linked_def ex_range_grid_def ex_focus_grid_def ex_grid_def
        constrainRange_def)
  from a r d show ?thesis by simp
qed

text \<open>
  C4, amended. For every pair of charts linked by \<open>B.rangeChart(A)\<close>, in the state that
  A's \<open>filtered\<close> listener leaves (also when the redraw inside \<open>focus\<close> does not complete):
  when A's filter is cleared, B's domain is B's original domain; when A's filter is a
  range \<open>[lo, hi]\<close> differing from B's filter and B's axis is not elastic, B's domain is
  \<open>[lo, hi]\<close> if B's \<open>zoomOutRestrict\<close> is false, and otherwise \<open>[lo, hi]\<close> constrained to
  B's original domain and then to A's current domain, which is exactly \<open>[lo, hi]\<close> when
  \<open>[lo, hi]\<close> lies inside both.
\<close>

theorem range_focus_propagation:
  "(chart_filter (range_chart s) = None \<longrightarrow>
      yDomain (focus_chart (fst (state_of (range_filtered s))))
        = yOriginalDomain (focus_chart s))
   \<and> (\<forall>f. chart_filter (range_chart s) = Some f
            \<and> \<not> rangesEqual (Some f) (chart_filter (focus_chart s))
            \<and> \<not> yElasticity (focus_chart s) \<longrightarrow>
        yDomain (focus_chart (fst (state_of (range_filtered s))))
          = (if zoomOutRestrict (focus_chart s)
             then constrainRange (constrainRange f (yOriginalDomain (focus_chart s)))
                    (yDomain (range_chart s))
             else f)
        \<and> (fst (yOriginalDomain (focus_chart s)) \<le> fst f
             \<and> snd f \<le> snd (yOriginalDomain (focus_chart s))
             \<and> fst (yDomain (range_chart s)) \<le> fst f
             \<and> snd f \<le> snd (yDomain (range_chart s)) \<longrightarrow>
           yDomain (focus_chart (fst (state_of (range_filtered s)))) = f))"
proof (intro conjI allI impI)
  assume "chart_filter (range_chart s) = None"
  thus "yDomain (focus_chart (fst (state_of (range_filtered s))))
          = yOriginalDomain (focus_chart s)"
    by (simp add: range_filtered_cleared)
next
  fix f
  assume h: "chart_filter (range_chart s) = Some f
             \<and> \<not> rangesEqual (Some f) (chart_filter (focus_chart s))
             \<and> \<not> yElasticity (focus_chart s)"
  hence e: "focus_chart (fst (state_of (range_filtered s)))
              = fst (state_of (focus (Some f) (focus_chart s) (Some (range_chart s))))"
    by (intro range_filtered_focus(1)) simp_all
  show d: "yDomain (focus_chart (fst (state_of (range_filtered s))))
          = (if zoomOutRestrict (focus_chart s)
             then constrainRange (constrainRange f (yOriginalDomain (focus_chart s)))
                    (yDomain (range_chart s))
             else f)"
    unfolding e using h by (simp add: focus_domain)
  assume i: "fst (yOriginalDomain (focus_chart s)) \<le> fst f
             \<and> snd f \<le> snd (yOriginalDomain (focus_chart s))
             \<and> fst (yDomain (range_chart s)) \<le> fst f
             \<and> snd f \<le> snd (yDomain (range_chart s))"
  show "yDomain (focus_chart (fst (state_of (range_filtered s)))) = f"
    unfolding d using i by (simp add: constrainRange_inside)
qed

theorem range_focus_propagation_witness:
  "chart_filter (range_chart ex_linked_inside) = Some (10, 20)
   \<and> \<not> rangesEqual (Some (10, 20)) (chart_filter (focus_chart ex_linked_inside))
   \<and> \<not> yElasticity (focus_chart ex_linked_inside)
   \<and> yOriginalDomain (focus_chart ex_linked_inside) = (0, 50)
   \<and> yDomain (range_chart ex_linked_inside) = (0, 100)
   \<and> yDomain (focus_chart (fst (state_of (range_filtered ex_linked_inside)))) = (10, 20)
   \<and> returns (range_filtered ex_linked_inside)
   \<and> brushOn (focus_chart ex_linked_brush_on)
   \<and> chart_filter (range_chart ex_linked_brush_on) = Some (10, 20)
   \<and> yDomain (focus_chart (fst (state_of (range_filtered ex_linked_brush_on)))) = (10, 20)
   \<and> \<not> returns (range_filtered ex_linked_brush_on)
   \<and> chart_filter (range_chart ex_linked_cleared) = None
   \<and> yDomain (focus_chart ex_linked_cleared) = (10, 20)
   \<and> yDomain (focus_chart (fst (state_of (range_filtered ex_linked_cleared)))) = (0, 50)"
proof -
  have a: "chart_filter (range_chart ex_linked_inside) = Some (10, 20)"
    "\<not> rangesEqual (Some (10, 20)) (chart_filter (focus_chart ex_linked_inside))"
    "\<not> yElasticity (focus_chart ex_linked_inside)"
    "yOriginalDomain (focus_chart ex_linked_inside) = (0, 50)"
    "yDomain (range_chart ex_linked_inside) = (0, 100)"
    by (simp_all add: ex_linked_inside_def ex_range_grid_def ex_focus_grid_def ex_grid_def)
  have b: "brushOn (focus_chart ex_linked_brush_on)"
    "chart_filter (range_chart ex_linked_brush_on) = Some (10, 20)"
    "\<not> rangesEqual (Some (10, 20)) (chart_filter (focus_chart ex_linked_brush_on))"
    "\<not> yElasticity (focus_chart ex_linked_brush_on)"
    "yOriginalDomain (focus_chart ex_linked_brush_on) = (0, 50)"
    "yDomain (range_chart ex_linked_brush_on) = (0, 100)"
    by (simp_all add: ex_linked_brush_on_def ex_linked_inside_def ex_range_grid_def
        ex_focus_grid_def ex_grid_def)
  have c: "chart_filter (range_chart ex_linked_cleared) = None"
    "yDomain (focus_chart ex_linked_cleared) = (10, 20)"
    "yOriginalDomain (focus_chart ex_linked_cleared) = (0, 50)"
    by (simp_all add: ex_linked_cleared_def ex_range_grid_def ex_focus_grid_def ex_grid_def)
  have ra: "returns (range_filtered ex_linked_inside)"
    unfolding range_filtered_focus(2) [OF a(1) a(2)] focus_def
    by (rule zoomHandler_completes)
       (simp_all add: ex_linked_inside_def ex_range_grid_def ex_focus_grid_def ex_grid_def)
  have rb: "\<not> returns (range_filtered ex_linked_brush_on)"
    unfolding range_filtered_focus(2) [OF b(2) b(3)] focus_def
    by (rule zoomHandler_throws) (simp add: b(1))
  from range_focus_propagation [of ex_linked_inside] a
  have da: "yDomain (focus_chart (fst (state_of (range_filtered ex_linked_inside)))) = (10, 20)"
    by (simp add: constrainRange_def)
  from range_focus_propagation [of ex_linked_brush_on] b
  have db: "yDomain (focus_chart (fst (state_of (range_filtered ex_linked_brush_on)))) = (10, 20)"
    by (simp add: constrainRange_def)
  from range_focus_propagation [of ex_linked_cleared] c
  have dc: "yDomain (focus_chart (fst (state_of (range_filtered ex_linked_cleared)))) = (0, 50)"
    by simp
  from a b c ra rb da db dc show ?thesis by blast
qed

subsection \<open>C10: the filter function and the brush\<close>



text \<open>
  On the chart state of the sections above, where a filter is a range or \<open>null\<close> and the
  base function sets it, the filter function leaves the brush extent and the active filter
  equal, and so does \<open>replaceFilter\<close>.
\<close>

lemma filter_set_in_step:
  "brush (filter_set f c) = chart_filter (filter_set f c)"
  "brush (replaceFilter r c) = chart_filter (replaceFilter r c)"
  by simp_all

end
